theory Spec2Isabelle
  imports Main "HOL-Library.Word" "HOL-Library.Signed_Division"
begin

unbundle bit_operations_syntax

section \<open>Values crossing the interface\<close>

text \<open>
  This theory embeds \<^verbatim>\<open>src.ts/crypto/signature.ts\<close>: the class \<^verbatim>\<open>Signature\<close>, its
  accessors, its static helpers and the multi-format constructor \<^verbatim>\<open>Signature.from\<close>.
  A byte of a \<^verbatim>\<open>Uint8Array\<close> is an 8-bit word, a JavaScript string is a \<open>string\<close>, a
  \<^verbatim>\<open>bigint\<close> is an \<open>int\<close>, and a thrown error is the \<open>Inl\<close> side of a sum.
\<close>

type_synonym byte = "8 word"

text \<open>\<^verbatim>\<open>BytesLike = DataHexString | Uint8Array\<close>.\<close>

datatype BytesLike = Str string | U8 "byte list"

text \<open>
  \<^verbatim>\<open>BigNumberish = string | number | bigint\<close>. The model covers the two numeric
  alternatives, a \<^verbatim>\<open>number\<close> holding an integer and a \<^verbatim>\<open>bigint\<close>; numeric strings and
  fractional numbers are outside of it.
\<close>

datatype BigNumberish = NumberV int | BigIntV int

text \<open>
  A property of an object literal: the key is not there (\<open>Absent\<close>), it is there
  holding \<^verbatim>\<open>undefined\<close> or \<^verbatim>\<open>null\<close> (\<open>Nullish\<close>), or it holds a value. The test
  \<^verbatim>\<open>x != null\<close> is true for \<open>Present\<close> only; the test \<^verbatim>\<open>"k" in sig\<close> is false for
  \<open>Absent\<close> only.
\<close>

datatype 'a property = Absent | Nullish | Present 'a

text \<open>The private store \<^verbatim>\<open>#props\<close> of an instance, with the flag set by \<^verbatim>\<open>Object.freeze\<close>.\<close>

record Signature =
  props_r :: string
  props_s :: string
  props_v :: int
  props_networkV :: "int option"
  props_frozen :: bool

text \<open>The object alternatives of \<^verbatim>\<open>SignatureLike\<close>, every key optional at run time.\<close>

record SigObject =
  obj_r :: "string property"
  obj_s :: "string property"
  obj_v :: "BigNumberish property"
  obj_yParity :: "int property"
  obj_yParityAndS :: "string property"

datatype SignatureLike =
    SigNull
  | SigString string
  | SigInstance Signature
  | SigRecord SigObject

datatype jsvalue =
    VBytes BytesLike
  | VNumeric BigNumberish
  | VSignatureLike SignatureLike

text \<open>
  \<open>INVALID_ARGUMENT message name value\<close> is what \<^verbatim>\<open>assertArgument\<close> throws;
  \<open>FROZEN key\<close> is the error of a write to a frozen store.
\<close>

datatype error =
    INVALID_ARGUMENT (err_message: string) (err_argument: string) (err_value: jsvalue)
  | FROZEN string

definition bind_result :: "error + 'a \<Rightarrow> ('a \<Rightarrow> error + 'b) \<Rightarrow> error + 'b" where
  "bind_result m f = (case m of Inl e \<Rightarrow> Inl e | Inr x \<Rightarrow> f x)"

section \<open>The helpers of \<^verbatim>\<open>utils\<close>\<close>

text \<open>
  Modelled from the spec: \<^verbatim>\<open>assertArgument\<close> of \<^verbatim>\<open>../utils/index.js\<close>, which is not
  among the sources. Section 7 of the specification: a failure is a synchronous
  argument-validation error carrying the reason, the parameter name and the offending
  value. The last argument is the code that runs after the assertion.
\<close>

definition assertArgument ::
  "bool \<Rightarrow> string \<Rightarrow> string \<Rightarrow> jsvalue \<Rightarrow> error + 'a \<Rightarrow> error + 'a" where
  "assertArgument check message name value rest =
     (if check then rest else Inl (INVALID_ARGUMENT message name value))"

text \<open>
  The hexadecimal codec of \<^verbatim>\<open>../utils/index.js\<close> (\<^verbatim>\<open>getBytes\<close>, \<^verbatim>\<open>hexlify\<close>,
  \<^verbatim>\<open>isHexString\<close>, \<^verbatim>\<open>dataLength\<close>, \<^verbatim>\<open>concat\<close>) is not among the sources. The
  specification calls \<open>r\<close> and \<open>s\<close> fixed-width hex strings that decode as exactly 32
  bytes: a hex string is \<^verbatim>\<open>0x\<close> followed by two hexadecimal digits per byte, digits of
  either case are read, and lower-case digits are written.
\<close>

text \<open>Modelled from the spec: the digits \<^verbatim>\<open>hexlify\<close> writes, and the value of a digit read.\<close>

definition HexCharacters :: string where
  "HexCharacters = ''0123456789abcdef''"

definition hexDigit :: "char \<Rightarrow> nat option" where
  "hexDigit c = map_of (zip ''0123456789abcdefABCDEF''
     [0, 1, 2, 3, 4, 5, 6, 7, 8, 9, 10, 11, 12, 13, 14, 15, 10, 11, 12, 13, 14, 15]) c"

fun parseHexPairs :: "string \<Rightarrow> byte list option" where
  "parseHexPairs [] = Some []"
| "parseHexPairs [c] = None"
| "parseHexPairs (h # l # cs) =
     (case hexDigit h of None \<Rightarrow> None
      | Some hi \<Rightarrow>
          (case hexDigit l of None \<Rightarrow> None
           | Some lo \<Rightarrow>
               (case parseHexPairs cs of None \<Rightarrow> None
                | Some bs \<Rightarrow> Some (of_nat (16 * hi + lo) # bs))))"

text \<open>
  Modelled from the spec: \<^verbatim>\<open>getBytes\<close>, which is not among the sources. A
  \<^verbatim>\<open>Uint8Array\<close> is returned as it is; a string must be \<^verbatim>\<open>0x\<close> followed by pairs of
  hexadecimal digits, read without regard to case; anything else is an argument error
  under the given name.
\<close>

definition getBytes :: "BytesLike \<Rightarrow> string \<Rightarrow> error + byte list" where
  "getBytes value name =
     (case value of
        U8 bs \<Rightarrow> Inr bs
      | Str st \<Rightarrow>
          (case (if take 2 st = ''0x'' \<or> take 2 st = ''0X''
                 then parseHexPairs (drop 2 st) else None) of
             Some bs \<Rightarrow> Inr bs
           | None \<Rightarrow> Inl (INVALID_ARGUMENT ''invalid BytesLike value'' name (VBytes value))))"

text \<open>
  Modelled from the spec: \<^verbatim>\<open>hexlify\<close>, which is not among the sources: \<^verbatim>\<open>0x\<close> and two
  lower-case digits for every byte of \<^verbatim>\<open>getBytes(data)\<close>. \<open>hexlify_bytes\<close> is \<^verbatim>\<open>hexlify\<close>
  on a \<^verbatim>\<open>Uint8Array\<close>, where it cannot fail.
\<close>

definition hexByte :: "byte \<Rightarrow> string" where
  "hexByte v = [HexCharacters ! unat (drop_bit 4 (v AND 0xf0)), HexCharacters ! unat (v AND 0x0f)]"

definition hexlify_bytes :: "byte list \<Rightarrow> string" where
  "hexlify_bytes bytes = ''0x'' @ concat (map hexByte bytes)"

definition hexlify :: "BytesLike \<Rightarrow> error + string" where
  "hexlify data = bind_result (getBytes data ''value'') (\<lambda>bytes. Inr (hexlify_bytes bytes))"

text \<open>
  Modelled from the spec: \<^verbatim>\<open>isHexString\<close>, which is not among the sources: the string is
  \<^verbatim>\<open>0x\<close> followed by hexadecimal digits of either case and has the length asked for. The
  optional second argument is omitted, a number of bytes, or \<^verbatim>\<open>true\<close> (whole bytes).
\<close>

datatype HexLength = AnyLength | ByteLength nat | WholeBytes

definition isHexString :: "string \<Rightarrow> HexLength \<Rightarrow> bool" where
  "isHexString value len =
     (take 2 value = ''0x'' \<and> list_all (\<lambda>c. hexDigit c \<noteq> None) (drop 2 value) \<and>
      (case len of
         AnyLength \<Rightarrow> True
       | ByteLength n \<Rightarrow> length value = 2 + 2 * n
       | WholeBytes \<Rightarrow> even (length value)))"

text \<open>
  Modelled from the spec: \<^verbatim>\<open>dataLength\<close>, which is not among the sources: the number of
  bytes of a \<^verbatim>\<open>BytesLike\<close>.
\<close>

definition dataLength :: "BytesLike \<Rightarrow> error + nat" where
  "dataLength data =
     (case data of
        Str st \<Rightarrow>
          (if isHexString st WholeBytes then Inr ((length st - 2) div 2)
           else bind_result (getBytes data ''value'') (\<lambda>bytes. Inr (length bytes)))
      | U8 bs \<Rightarrow> Inr (length bs))"

text \<open>
  Modelled from the spec: \<^verbatim>\<open>concat\<close>, which is not among the sources: \<^verbatim>\<open>0x\<close> followed by
  the digits of \<^verbatim>\<open>hexlify\<close> of every item, in order.
\<close>

fun concat_digits :: "BytesLike list \<Rightarrow> error + string" where
  "concat_digits [] = Inr []"
| "concat_digits (d # ds) =
     bind_result (hexlify d) (\<lambda>h.
     bind_result (concat_digits ds) (\<lambda>t. Inr (drop 2 h @ t)))"

definition concat_data :: "BytesLike list \<Rightarrow> error + string" where
  "concat_data datas = bind_result (concat_digits datas) (\<lambda>t. Inr (''0x'' @ t))"

text \<open>Modelled from the spec: the largest safe integer of a \<^verbatim>\<open>number\<close>, \<open>2\<^sup>5\<^sup>3 - 1\<close>.\<close>

definition maxValue :: int where
  "maxValue = 0x1fffffffffffff"

text \<open>
  Modelled from the spec: \<^verbatim>\<open>getBigInt\<close> of \<^verbatim>\<open>../utils/index.js\<close>, which is not among the
  sources. It reads a raw integer: a \<^verbatim>\<open>bigint\<close> is taken as it is, a \<^verbatim>\<open>number\<close> must lie in
  the range of the safe integers.
\<close>

definition getBigInt :: "BigNumberish \<Rightarrow> string \<Rightarrow> error + int" where
  "getBigInt value name =
     (case value of
        BigIntV n \<Rightarrow> Inr n
      | NumberV n \<Rightarrow>
          assertArgument (- maxValue \<le> n \<and> n \<le> maxValue) ''overflow'' name (VNumeric value)
            (Inr n))"

text \<open>
  Modelled from the spec: \<^verbatim>\<open>getNumber\<close> of \<^verbatim>\<open>../utils/index.js\<close>, which is not among the
  sources. It reads a raw integer as a \<^verbatim>\<open>number\<close>: the value, \<^verbatim>\<open>number\<close> or \<^verbatim>\<open>bigint\<close>, must
  lie in the range of the safe integers.
\<close>

definition getNumber :: "BigNumberish \<Rightarrow> string \<Rightarrow> error + int" where
  "getNumber value name =
     (case value of
        BigIntV n \<Rightarrow>
          assertArgument (- maxValue \<le> n \<and> n \<le> maxValue) ''overflow'' name (VNumeric value)
            (Inr n)
      | NumberV n \<Rightarrow>
          assertArgument (- maxValue \<le> n \<and> n \<le> maxValue) ''overflow'' name (VNumeric value)
            (Inr n))"

text \<open>
  Modelled from the spec: \<^verbatim>\<open>setStore\<close> of \<^verbatim>\<open>../utils/index.js\<close>, which is not among the
  sources. Writing a key of a frozen store fails (section 3 of the specification: once
  frozen, any further mutation attempt must fail); otherwise the key is written.
  \<^verbatim>\<open>getStore\<close> reads a key, which the getters below do on the record.
\<close>

definition setStore ::
  "Signature \<Rightarrow> string \<Rightarrow> (Signature \<Rightarrow> Signature) \<Rightarrow> error + Signature" where
  "setStore store key write =
     (if props_frozen store then Inl (FROZEN key) else Inr (write store))"

text \<open>Modelled from the spec: the constant \<^verbatim>\<open>ZeroHash\<close> of \<^verbatim>\<open>../constants/index.js\<close>, 32 zero bytes.\<close>

definition ZeroHash :: string where
  "ZeroHash = ''0x0000000000000000000000000000000000000000000000000000000000000000''"

section \<open>Static helpers of \<^verbatim>\<open>Signature\<close>\<close>

definition BN_0 :: int where "BN_0 = 0"
definition BN_1 :: int where "BN_1 = 1"
definition BN_2 :: int where "BN_2 = 2"
definition BN_27 :: int where "BN_27 = 27"
definition BN_28 :: int where "BN_28 = 28"
definition BN_35 :: int where "BN_35 = 35"

text \<open>Division of two \<^verbatim>\<open>bigint\<close>s truncates towards zero: \<open>sdiv\<close>.\<close>

definition getChainId :: "BigNumberish \<Rightarrow> error + int" where
  "getChainId v =
     bind_result (getBigInt v ''v'') (\<lambda>bv.
       if bv = BN_27 \<or> bv = BN_28 then Inr BN_0
       else assertArgument (bv \<ge> BN_35) ''invalid EIP-155 v'' ''v'' (VNumeric v)
              (Inr ((bv - BN_35) sdiv BN_2)))"

definition getChainIdV :: "BigNumberish \<Rightarrow> int \<Rightarrow> error + int" where
  "getChainIdV chainId v =
     bind_result (getBigInt chainId ''value'') (\<lambda>c. Inr (c * BN_2 + (35 + v - 27)))"

definition getNormalizedV :: "BigNumberish \<Rightarrow> error + int" where
  "getNormalizedV v =
     bind_result (getBigInt v ''value'') (\<lambda>bv.
       if bv = BN_0 then Inr 27
       else if bv = BN_1 then Inr 28
       else Inr (if bv AND BN_1 \<noteq> 0 then 27 else 28))"

section \<open>The class \<^verbatim>\<open>Signature\<close>\<close>

text \<open>
  \<^verbatim>\<open>new Signature(_guard, r, s, v)\<close>. Inside the module the guard is always the private
  token, so \<^verbatim>\<open>assertPrivate\<close> passes; the store starts with no \<open>networkV\<close>, not frozen.
\<close>

definition new_Signature :: "string \<Rightarrow> string \<Rightarrow> int \<Rightarrow> Signature" where
  "new_Signature r s v =
     \<lparr>props_r = r, props_s = s, props_v = v, props_networkV = None, props_frozen = False\<rparr>"

text \<open>
  \<^verbatim>\<open>bytes[0]\<close> as the operand of \<^verbatim>\<open>&\<close> (an empty array gives \<^verbatim>\<open>undefined\<close>, which \<^verbatim>\<open>&\<close>
  reads as 0), and the updates \<^verbatim>\<open>bytes[0] &= m\<close> and \<^verbatim>\<open>bytes[0] |= m\<close> (no effect on
  an empty array).
\<close>

definition byte0 :: "byte list \<Rightarrow> byte" where
  "byte0 bytes = (case bytes of [] \<Rightarrow> 0 | b # _ \<Rightarrow> b)"

definition and_byte0 :: "byte list \<Rightarrow> byte \<Rightarrow> byte list" where
  "and_byte0 bytes m = (case bytes of [] \<Rightarrow> [] | b # bs \<Rightarrow> (b AND m) # bs)"

definition or_byte0 :: "byte list \<Rightarrow> byte \<Rightarrow> byte list" where
  "or_byte0 bytes m = (case bytes of [] \<Rightarrow> [] | b # bs \<Rightarrow> (b OR m) # bs)"

text \<open>Truthiness of a \<^verbatim>\<open>null | undefined | bigint\<close> value: present and not \<^verbatim>\<open>0n\<close>.\<close>

definition truthy :: "int option \<Rightarrow> bool" where
  "truthy n = (case n of None \<Rightarrow> False | Some k \<Rightarrow> k \<noteq> 0)"

subsection \<open>Accessors\<close>

text \<open>
  A setter either throws (\<open>Inl\<close>) before anything is written, or returns the store after
  its single write (\<open>Inr\<close>). \<open>store_after\<close> is the store the instance holds once the call
  is over.
\<close>

definition store_after :: "Signature \<Rightarrow> error + Signature \<Rightarrow> Signature" where
  "store_after this outcome = (case outcome of Inl _ \<Rightarrow> this | Inr this' \<Rightarrow> this')"

definition get_r :: "Signature \<Rightarrow> string" where
  "get_r this = props_r this"

definition set_r :: "Signature \<Rightarrow> BytesLike \<Rightarrow> error + Signature" where
  "set_r this value =
     bind_result (dataLength value) (\<lambda>n.
     assertArgument (n = 32) ''invalid r'' ''value'' (VBytes value)
       (bind_result (hexlify value) (\<lambda>h.
        setStore this ''r'' (\<lambda>p. p\<lparr>props_r := h\<rparr>))))"

definition get_s :: "Signature \<Rightarrow> string" where
  "get_s this = props_s this"

definition set_s :: "Signature \<Rightarrow> BytesLike \<Rightarrow> error + Signature" where
  "set_s this value =
     bind_result (dataLength value) (\<lambda>n.
     assertArgument (n = 32) ''invalid r'' ''value'' (VBytes value)
       (bind_result (getBytes value ''value'') (\<lambda>bytes.
        assertArgument (byte0 bytes AND 0x80 = 0) ''non-canonical s'' ''value'' (VBytes value)
          (bind_result (hexlify value) (\<lambda>h.
           setStore this ''s'' (\<lambda>p. p\<lparr>props_s := h\<rparr>))))))"

definition get_v :: "Signature \<Rightarrow> int" where
  "get_v this = props_v this"

definition set_v :: "Signature \<Rightarrow> BigNumberish \<Rightarrow> error + Signature" where
  "set_v this value =
     bind_result (getNumber value ''value'') (\<lambda>v.
     assertArgument (v = 27 \<or> v = 28) ''invalid v'' ''v'' (VNumeric value)
       (setStore this ''v'' (\<lambda>p. p\<lparr>props_v := v\<rparr>)))"

definition get_networkV :: "Signature \<Rightarrow> int option" where
  "get_networkV this = props_networkV this"

definition get_legacyChainId :: "Signature \<Rightarrow> error + int option" where
  "get_legacyChainId this =
     (case get_networkV this of
        None \<Rightarrow> Inr None
      | Some v \<Rightarrow> bind_result (getChainId (BigIntV v)) (\<lambda>c. Inr (Some c)))"

definition get_yParity :: "Signature \<Rightarrow> int" where
  "get_yParity this = (if get_v this = 27 then 0 else 1)"

definition get_yParityAndS :: "Signature \<Rightarrow> error + string" where
  "get_yParityAndS this =
     bind_result (getBytes (Str (get_s this)) ''value'') (\<lambda>yParityAndS.
       Inr (hexlify_bytes
         (if get_yParity this \<noteq> 0 then or_byte0 yParityAndS 0x80 else yParityAndS)))"

definition get_compactSerialized :: "Signature \<Rightarrow> error + string" where
  "get_compactSerialized this =
     bind_result (get_yParityAndS this) (\<lambda>yParityAndS.
       concat_data [Str (get_r this), Str yParityAndS])"

definition get_serialized :: "Signature \<Rightarrow> error + string" where
  "get_serialized this =
     concat_data [Str (get_r this), Str (get_s this),
       Str (if get_yParity this \<noteq> 0 then ''0x1c'' else ''0x1b'')]"

subsection \<open>Copying and freezing\<close>

definition clone :: "Signature \<Rightarrow> error + Signature" where
  "clone this =
     (let clone = new_Signature (get_r this) (get_s this) (get_v this)
      in if truthy (get_networkV this)
         then setStore clone ''networkV'' (\<lambda>p. p\<lparr>props_networkV := get_networkV this\<rparr>)
         else Inr clone)"

definition freeze :: "Signature \<Rightarrow> Signature" where
  "freeze this = this\<lparr>props_frozen := True\<rparr>"

definition isFrozen :: "Signature \<Rightarrow> bool" where
  "isFrozen this = props_frozen this"

subsection \<open>The constructor \<^verbatim>\<open>Signature.from\<close>\<close>

text \<open>The local \<^verbatim>\<open>assertError\<close>: an argument error named \<^verbatim>\<open>signature\<close> carrying the input.\<close>

definition assertError ::
  "SignatureLike \<Rightarrow> bool \<Rightarrow> string \<Rightarrow> error + 'a \<Rightarrow> error + 'a" where
  "assertError sig check message rest =
     assertArgument check message ''signature'' (VSignatureLike sig) rest"

definition throwError :: "SignatureLike \<Rightarrow> string \<Rightarrow> error + 'a" where
  "throwError sig message = Inl (INVALID_ARGUMENT message ''signature'' (VSignatureLike sig))"

text \<open>The first function expression of \<^verbatim>\<open>from\<close>: \<open>s\<close>, from \<^verbatim>\<open>sig.s\<close> or \<^verbatim>\<open>sig.yParityAndS\<close>.\<close>

definition from_s :: "SignatureLike \<Rightarrow> string property \<Rightarrow> string property \<Rightarrow> error + string" where
  "from_s sig s yParityAndS =
     (case s of
        Present s' \<Rightarrow> assertError sig (isHexString s' (ByteLength 32)) ''invalid s'' (Inr s')
      | _ \<Rightarrow>
          (case yParityAndS of
             Present y \<Rightarrow>
               assertError sig (isHexString y (ByteLength 32)) ''invalid yParityAndS''
                 (bind_result (getBytes (Str y) ''value'') (\<lambda>bytes.
                    Inr (hexlify_bytes (and_byte0 bytes 0x7f))))
           | _ \<Rightarrow> throwError sig ''missing s''))"

text \<open>
  The second function expression of \<^verbatim>\<open>from\<close>: the pair \<open>(networkV, v)\<close>, from \<^verbatim>\<open>sig.v\<close>,
  \<^verbatim>\<open>sig.yParityAndS\<close> or \<^verbatim>\<open>sig.yParity\<close>.
\<close>

definition from_v ::
  "SignatureLike \<Rightarrow> BigNumberish property \<Rightarrow> string property \<Rightarrow> int property
     \<Rightarrow> error + (int option \<times> int)" where
  "from_v sig v' yParityAndS yParity =
     (case v' of
        Present raw \<Rightarrow>
          bind_result (getBigInt raw ''value'') (\<lambda>v.
          bind_result (getNormalizedV (BigIntV v)) (\<lambda>nv.
            Inr (if v \<ge> BN_35 then Some v else None, nv)))
      | _ \<Rightarrow>
          (case yParityAndS of
             Present y \<Rightarrow>
               assertError sig (isHexString y (ByteLength 32)) ''invalid yParityAndS''
                 (bind_result (getBytes (Str y) ''value'') (\<lambda>bytes.
                    Inr (None, if byte0 bytes AND 0x80 \<noteq> 0 then 28 else 27)))
           | _ \<Rightarrow>
               (case yParity of
                  Present p \<Rightarrow>
                    if p = 0 then Inr (None, 27)
                    else if p = 1 then Inr (None, 28)
                    else throwError sig ''invalid yParity''
                | _ \<Rightarrow> throwError sig ''missing v'')))"

text \<open>The structured-record part of \<^verbatim>\<open>from\<close>, from \<^verbatim>\<open>// Get r\<close> to the end.\<close>

definition from_record :: "SigObject \<Rightarrow> error + Signature" where
  "from_record obj =
     (let sig = SigRecord obj in
      (case obj_r obj of
         Present r \<Rightarrow>
           assertError sig (isHexString r (ByteLength 32)) ''invalid r''
             (bind_result (from_s sig (obj_s obj) (obj_yParityAndS obj)) (\<lambda>s.
              bind_result (getBytes (Str s) ''value'') (\<lambda>sbytes.
              assertError sig (byte0 sbytes AND 0x80 = 0) ''non-canonical s''
                (bind_result (from_v sig (obj_v obj) (obj_yParityAndS obj) (obj_yParity obj))
                   (\<lambda>(networkV, v).
                 bind_result
                   (if truthy networkV
                    then setStore (new_Signature r s v) ''networkV''
                           (\<lambda>p. p\<lparr>props_networkV := networkV\<rparr>)
                    else Inr (new_Signature r s v)) (\<lambda>result.
                 assertError sig
                   (\<not> (obj_yParity obj \<noteq> Absent \<and>
                       obj_yParity obj \<noteq> Present (get_yParity result)))
                   ''yParity mismatch''
                   (case obj_yParityAndS obj of
                      Absent \<Rightarrow> Inr result
                    | supplied \<Rightarrow>
                        bind_result (get_yParityAndS result) (\<lambda>derived.
                          assertError sig (\<not> (supplied \<noteq> Present derived))
                            ''yParityAndS mismatch'' (Inr result)))))))))
       | _ \<Rightarrow> throwError sig ''missing r''))"

definition "from" :: "SignatureLike \<Rightarrow> error + Signature" where
  "from sig =
     (case sig of
        SigNull \<Rightarrow> Inr (new_Signature ZeroHash ZeroHash 27)
      | SigString str \<Rightarrow>
          bind_result (getBytes (Str str) ''signature'') (\<lambda>bytes.
            if length bytes = 64 then
              (let r = hexlify_bytes (take 32 bytes);
                   s = take 32 (drop 32 bytes);
                   v = (if byte0 s AND 0x80 \<noteq> 0 then 28 else 27);
                   s = and_byte0 s 0x7f
               in Inr (new_Signature r (hexlify_bytes s) v))
            else if length bytes = 65 then
              (let r = hexlify_bytes (take 32 bytes);
                   s = take 32 (drop 32 bytes)
               in assertError sig (byte0 s AND 0x80 = 0) ''non-canonical s''
                    (bind_result (getNormalizedV (NumberV (uint (bytes ! 64)))) (\<lambda>v.
                       Inr (new_Signature r (hexlify_bytes s) v))))
            else throwError sig ''invlaid raw signature length'')
      | SigInstance this \<Rightarrow> clone this
      | SigRecord obj \<Rightarrow> from_record obj)"

section \<open>Instances of the factory surface\<close>

text \<open>
  The instances a program can hold: what \<^verbatim>\<open>from\<close> returns for an input that is not an
  instance, and what \<^verbatim>\<open>from\<close>, \<^verbatim>\<open>clone\<close>, \<^verbatim>\<open>freeze\<close> and the three setters make of an
  instance already held. The class constructor is gated by the private token, so there
  is no other way to one.
\<close>

definition is_instance :: "SignatureLike \<Rightarrow> bool" where
  "is_instance sig = (case sig of SigInstance _ \<Rightarrow> True | _ \<Rightarrow> False)"

inductive produced :: "Signature \<Rightarrow> bool" where
  by_from: "\<not> is_instance sig \<Longrightarrow> from sig = Inr this \<Longrightarrow> produced this"
| by_from_instance: "produced this \<Longrightarrow> from (SigInstance this) = Inr this' \<Longrightarrow> produced this'"
| by_clone: "produced this \<Longrightarrow> clone this = Inr this' \<Longrightarrow> produced this'"
| by_freeze: "produced this \<Longrightarrow> produced (freeze this)"
| by_set_r: "produced this \<Longrightarrow> set_r this value = Inr this' \<Longrightarrow> produced this'"
| by_set_s: "produced this \<Longrightarrow> set_s this value = Inr this' \<Longrightarrow> produced this'"
| by_set_v: "produced this \<Longrightarrow> set_v this n = Inr this' \<Longrightarrow> produced this'"

text \<open>
  The invariants of section 3 of the specification: \<open>r\<close> and \<open>s\<close> are hex strings of 32
  bytes, the top bit of the first byte of \<open>s\<close> is clear, \<open>v\<close> is 27 or 28.
\<close>

definition invariant :: "Signature \<Rightarrow> bool" where
  "invariant this =
     (isHexString (get_r this) (ByteLength 32) \<and>
      isHexString (get_s this) (ByteLength 32) \<and>
      (case getBytes (Str (get_s this)) ''value'' of
         Inl _ \<Rightarrow> False
       | Inr bytes \<Rightarrow> byte0 bytes AND 0x80 = 0) \<and>
      (get_v this = 27 \<or> get_v this = 28))"

section \<open>Properties of the hexadecimal codec\<close>

lemma hexDigit_HexCharacters: "n < 16 \<Longrightarrow> hexDigit (HexCharacters ! n) = Some n"
proof -
  assume "n < 16"
  then have "n \<in> set [0..<16]" by simp
  moreover have "\<forall>k \<in> set [0..<16]. hexDigit (HexCharacters ! k) = Some k"
    by code_simp
  ultimately show ?thesis by blast
qed

lemma nat_and_15: "(n::nat) AND 15 = n mod 16"
proof -
  have "(15::nat) = mask 4" by (simp add: mask_eq_exp_minus_1)
  then have "n AND 15 = take_bit 4 n" by (simp only: take_bit_eq_mask)
  then show ?thesis by (simp add: take_bit_eq_mod)
qed

lemma lo_nibble: "unat ((v::byte) AND 0x0f) = unat v mod 16"
  using nat_and_15 [of "unat v"] by (simp add: unsigned_and_eq)

lemma hi_nibble: "unat (drop_bit 4 ((v::byte) AND 0xf0)) = unat v div 16"
proof -
  have lt: "unat v < 256" using unsigned_less [of v] by simp
  have "unat (drop_bit 4 (v AND 0xf0)) = drop_bit 4 (unat v) AND drop_bit 4 (240::nat)"
    by (simp add: unat_drop_bit_eq unsigned_and_eq)
  also have "\<dots> = (unat v div 16) AND 15"
    by (simp add: drop_bit_eq_div)
  also have "\<dots> = (unat v div 16) mod 16" by (rule nat_and_15)
  also have "\<dots> = unat v div 16" using lt by simp
  finally show ?thesis .
qed

lemma byte_recompose:
  "(of_nat (16 * unat (drop_bit 4 ((v::byte) AND 0xf0)) + unat (v AND 0x0f)) :: byte) = v"
proof -
  have "16 * unat (drop_bit 4 (v AND 0xf0)) + unat (v AND 0x0f) = unat v"
    unfolding hi_nibble lo_nibble by simp
  then have "(of_nat (16 * unat (drop_bit 4 (v AND 0xf0)) + unat (v AND 0x0f)) :: byte)
      = of_nat (unat v)"
    by (simp only:)
  then show ?thesis by simp
qed


lemma nibbles_lt: "unat (drop_bit 4 ((v::byte) AND 0xf0)) < 16" "unat ((v::byte) AND 0x0f) < 16"
proof -
  have lt: "unat v < 256" using unsigned_less [of v] by simp
  then show "unat (drop_bit 4 (v AND 0xf0)) < 16" unfolding hi_nibble by simp
  show "unat (v AND 0x0f) < 16" unfolding lo_nibble by simp
qed

lemma hexByte_digits:
  obtains h l where "hexByte v = [h, l]" and "hexDigit h \<noteq> None" and "hexDigit l \<noteq> None"
    and "\<And>cs. parseHexPairs (h # l # cs) = map_option ((#) v) (parseHexPairs cs)"
proof -
  define hi where "hi = unat (drop_bit 4 (v AND 0xf0))"
  define lo where "lo = unat (v AND 0x0f)"
  have hb: "hexByte v = [HexCharacters ! hi, HexCharacters ! lo]"
    by (simp only: hexByte_def hi_def lo_def)
  have dh: "hexDigit (HexCharacters ! hi) = Some hi" and dl: "hexDigit (HexCharacters ! lo) = Some lo"
    unfolding hi_def lo_def by (rule hexDigit_HexCharacters, rule nibbles_lt)+
  have re: "(of_nat (16 * hi + lo) :: byte) = v"
    unfolding hi_def lo_def by (rule byte_recompose)
  then have re': "16 * (of_nat hi :: byte) + of_nat lo = v"
    by simp
  have "parseHexPairs (HexCharacters ! hi # HexCharacters ! lo # cs)
      = map_option ((#) v) (parseHexPairs cs)" for cs
    by (cases "parseHexPairs cs") (simp_all add: dh dl re')
  with hb dh dl show thesis using that by simp
qed

lemma parseHexPairs_hexByte:
  "parseHexPairs (hexByte v @ cs) = map_option ((#) v) (parseHexPairs cs)"
  by (rule hexByte_digits [of v]) simp

lemma parseHexPairs_hexlify: "parseHexPairs (concat (map hexByte bs)) = Some bs"
  by (induction bs) (simp_all add: parseHexPairs_hexByte)

lemma getBytes_hexlify_bytes [simp]: "getBytes (Str (hexlify_bytes bs)) name = Inr bs"
  by (simp add: getBytes_def hexlify_bytes_def parseHexPairs_hexlify)

lemma length_hexByte [simp]: "length (hexByte v) = 2"
  by (simp add: hexByte_def)

lemma length_hexDigits: "length (concat (map hexByte bs)) = 2 * length bs"
  by (induction bs) simp_all

lemma length_hexlify_bytes [simp]: "length (hexlify_bytes bs) = 2 + 2 * length bs"
  by (simp add: hexlify_bytes_def length_hexDigits)

lemma hexDigits_hexByte: "list_all (\<lambda>c. hexDigit c \<noteq> None) (hexByte v)"
  by (rule hexByte_digits [of v]) simp

lemma isHexString_hexlify_bytes [simp]:
  "isHexString (hexlify_bytes bs) (ByteLength n) \<longleftrightarrow> length bs = n"
proof -
  have "list_all (\<lambda>c. hexDigit c \<noteq> None) (concat (map hexByte bs))"
    using hexDigits_hexByte by (induction bs) simp_all
  then show ?thesis
    by (auto simp: isHexString_def hexlify_bytes_def length_hexDigits)
qed

lemma hexlify_bytes_append:
  "hexlify_bytes (as @ bs) = hexlify_bytes as @ drop 2 (hexlify_bytes bs)"
  by (simp add: hexlify_bytes_def)

lemma parseHexPairs_digits:
  "list_all (\<lambda>c. hexDigit c \<noteq> None) cs \<Longrightarrow> even (length cs)
     \<Longrightarrow> \<exists>bs. parseHexPairs cs = Some bs \<and> 2 * length bs = length cs"
proof (induction cs rule: parseHexPairs.induct)
  case 1
  then show ?case by simp
next
  case (2 c)
  then show ?case by simp
next
  case (3 h l cs)
  from "3.prems" obtain hi lo where hl: "hexDigit h = Some hi" "hexDigit l = Some lo"
    by auto
  from "3.prems" have "list_all (\<lambda>c. hexDigit c \<noteq> None) cs" "even (length cs)"
    by simp_all
  with "3.IH" [OF hl] obtain bs where "parseHexPairs cs = Some bs" "2 * length bs = length cs"
    by blast
  with hl show ?case by simp
qed

lemma isHexString_getBytes:
  assumes "isHexString st (ByteLength n)"
  obtains bs where "getBytes (Str st) name = Inr bs" and "length bs = n"
proof -
  from assms have pre: "take 2 st = ''0x''"
    and dig: "list_all (\<lambda>c. hexDigit c \<noteq> None) (drop 2 st)"
    and len: "length st = 2 + 2 * n"
    by (simp_all add: isHexString_def)
  from len have "even (length (drop 2 st))" by simp
  with dig obtain bs where bs: "parseHexPairs (drop 2 st) = Some bs"
    and "2 * length bs = length (drop 2 st)"
    using parseHexPairs_digits by blast
  with len have "length bs = n" by simp
  moreover have "getBytes (Str st) name = Inr bs"
    using pre bs by (simp add: getBytes_def)
  ultimately show thesis using that by blast
qed

section \<open>The static helpers\<close>

lemma int_and_1: "(n::int) AND 1 \<noteq> 0 \<longleftrightarrow> odd n"
  by (simp add: and_one_eq mod_2_eq_odd)

lemma sdiv_nonneg: "0 \<le> (a::int) \<Longrightarrow> a sdiv 2 = a div 2"
  by (simp add: signed_divide_int_def sgn_if)

text \<open>
  Claim C7. \<^verbatim>\<open>getNormalizedV\<close> sends 0 to 27 and 1 to 28, and every other non-negative
  integer to 27 when it is odd and to 28 when it is even, also below 27; so 27 and 28
  are fixed and the result is always 27 or 28. The integer is what \<^verbatim>\<open>getBigInt\<close> reads
  from the argument.
\<close>

theorem getNormalizedV_parity:
  assumes "getBigInt v ''value'' = Inr n" and "0 \<le> n"
  shows "getNormalizedV v =
           Inr (if n = 0 then 27 else if n = 1 then 28 else if odd n then 27 else 28)
         \<and> (\<exists>k. getNormalizedV v = Inr k \<and> (k = 27 \<or> k = 28))
         \<and> getNormalizedV (BigIntV 27) = Inr 27 \<and> getNormalizedV (BigIntV 28) = Inr 28
         \<and> getNormalizedV (NumberV 27) = Inr 27 \<and> getNormalizedV (NumberV 28) = Inr 28"
  using assms
  by (simp add: getNormalizedV_def getBigInt_def bind_result_def BN_0_def BN_1_def
        int_and_1 assertArgument_def maxValue_def)

theorem getNormalizedV_parity_witness:
  "getBigInt (BigIntV 26) ''value'' = Inr 26 \<and> getNormalizedV (BigIntV 26) = Inr 28
   \<and> getBigInt (NumberV 37) ''value'' = Inr 37 \<and> getNormalizedV (NumberV 37) = Inr 27"
  using getNormalizedV_parity [of "BigIntV 26" 26] getNormalizedV_parity [of "NumberV 37" 37]
  by (simp add: getBigInt_def assertArgument_def maxValue_def)

text \<open>
  Claim C6. For a chain id \<open>n \<ge> 0\<close> and \<open>v\<close> of 27 or 28, \<^verbatim>\<open>getChainIdV\<close> is
  \<open>n * 2 + 35 + (v - 27)\<close> and \<^verbatim>\<open>getChainId\<close> of it is \<open>n\<close> again; \<^verbatim>\<open>getChainId\<close> is 0
  at 27 and 28, an argument error at every other value below 35, and the floor of
  \<open>(m - 35) / 2\<close> from 35 on.
\<close>

theorem chainId_inverse:
  assumes "getBigInt c ''value'' = Inr n" and "0 \<le> n" and "v = 27 \<or> v = 28"
    and "getBigInt x ''v'' = Inr m"
  shows "getChainIdV c v = Inr (n * 2 + 35 + (v - 27))
         \<and> bind_result (getChainIdV c v) (\<lambda>w. getChainId (BigIntV w)) = Inr n
         \<and> getChainId x =
             (if m = 27 \<or> m = 28 then Inr 0
              else if m < 35 then Inl (INVALID_ARGUMENT ''invalid EIP-155 v'' ''v'' (VNumeric x))
              else Inr ((m - 35) div 2))"
proof -
  have name: "getBigInt c name = Inr n" for name
    using assms(1) by (cases c) (auto simp: getBigInt_def assertArgument_def split: if_splits)
  have v: "getChainIdV c v = Inr (n * 2 + 35 + (v - 27))"
    by (simp add: getChainIdV_def bind_result_def name BN_2_def)
  have "(n * 2 + 35 + (v - 27) - 35) sdiv 2 = n"
    using assms(2,3) by (auto simp: sdiv_nonneg)
  then have inv: "bind_result (getChainIdV c v) (\<lambda>w. getChainId (BigIntV w)) = Inr n"
    using assms(2,3) 
    by (auto simp add: v bind_result_def getChainId_def getBigInt_def assertArgument_def
          BN_0_def BN_27_def BN_28_def BN_35_def BN_2_def)
  have "getChainId x =
             (if m = 27 \<or> m = 28 then Inr 0
              else if m < 35 then Inl (INVALID_ARGUMENT ''invalid EIP-155 v'' ''v'' (VNumeric x))
              else Inr ((m - 35) div 2))"
    using assms(4)
    by (simp add: bind_result_def getChainId_def assertArgument_def sdiv_nonneg
          BN_0_def BN_27_def BN_28_def BN_35_def BN_2_def)
  with v inv show ?thesis by simp
qed

theorem chainId_inverse_witness:
  "getBigInt (BigIntV 5) ''value'' = Inr 5 \<and> getChainIdV (BigIntV 5) 28 = Inr 46
   \<and> getChainId (BigIntV 46) = Inr 5
   \<and> getChainId (NumberV 30) = Inl (INVALID_ARGUMENT ''invalid EIP-155 v'' ''v'' (VNumeric (NumberV 30)))"
  using chainId_inverse [of "BigIntV 5" 5 28 "BigIntV 46" 46]
    chainId_inverse [of "BigIntV 5" 5 28 "NumberV 30" 30]
  by (simp add: getBigInt_def assertArgument_def maxValue_def bind_result_def)

section \<open>The raw blobs\<close>

lemma byte0_nth: "bs \<noteq> [] \<Longrightarrow> byte0 bs = bs ! 0"
  by (cases bs) (simp_all add: byte0_def)

lemma byte0_drop: "n < length bytes \<Longrightarrow> byte0 (drop n bytes) = bytes ! n"
  by (simp add: byte0_nth)

lemma byte0_take_drop:
  "n < length bytes \<Longrightarrow> 0 < k \<Longrightarrow> byte0 (take k (drop n bytes)) = bytes ! n"
  by (simp add: byte0_nth)

lemma and_byte0_update: "bs \<noteq> [] \<Longrightarrow> and_byte0 bs m = bs[0 := byte0 bs AND m]"
  by (cases bs) (simp_all add: and_byte0_def byte0_def)

section \<open>The structured record\<close>

lemma getNormalizedV_BigIntV:
  "getNormalizedV (BigIntV n) = Inr (if n = 0 then 27 else if n = 1 then 28 else if odd n then 27 else 28)"
  by (simp add: getNormalizedV_def getBigInt_def bind_result_def BN_0_def BN_1_def int_and_1)

lemma from_v_range:
  assumes "from_v sig v' y p = Inr (nv, v)"
  shows "(nv = None \<or> (\<exists>n. nv = Some n \<and> 35 \<le> n)) \<and> (v = 27 \<or> v = 28)"
  using assms
  by (auto simp: from_v_def bind_result_def getNormalizedV_BigIntV assertError_def
        assertArgument_def throwError_def BN_35_def
      split: property.splits sum.splits if_splits)

lemma truthy_from_v:
  "from_v sig v' y p = Inr (nv, v) \<Longrightarrow> truthy nv \<longleftrightarrow> nv \<noteq> None"
  by (drule from_v_range) (auto simp: truthy_def)

lemma from_record_tail:
  assumes r: "obj_r obj = Present r" "isHexString r (ByteLength 32)"
    and s: "from_s (SigRecord obj) (obj_s obj) (obj_yParityAndS obj) = Inr s"
    and sb: "getBytes (Str s) ''value'' = Inr sb" "byte0 sb AND 0x80 = 0"
    and v: "from_v (SigRecord obj) (obj_v obj) (obj_yParityAndS obj) (obj_yParity obj) = Inr (nv, v)"
  shows "from_record obj =
    (if obj_yParity obj \<noteq> Absent \<and> obj_yParity obj \<noteq> Present (if v = 27 then 0 else 1)
     then Inl (INVALID_ARGUMENT ''yParity mismatch'' ''signature'' (VSignatureLike (SigRecord obj)))
     else if obj_yParityAndS obj \<noteq> Absent \<and>
             obj_yParityAndS obj \<noteq> Present (hexlify_bytes (if v = 27 then sb else or_byte0 sb 0x80))
     then Inl (INVALID_ARGUMENT ''yParityAndS mismatch'' ''signature'' (VSignatureLike (SigRecord obj)))
     else Inr ((new_Signature r s v)\<lparr>props_networkV := nv\<rparr>))" (is "_ = ?rhs")
proof -
  have t: "truthy nv \<longleftrightarrow> nv \<noteq> None" using v by (rule truthy_from_v)
  have n: "\<not> truthy nv \<Longrightarrow> (new_Signature r s v)\<lparr>props_networkV := nv\<rparr> = new_Signature r s v"
    using t by (simp add: new_Signature_def)
  have "from_record obj =
      bind_result
        (if truthy nv
         then setStore (new_Signature r s v) ''networkV'' (\<lambda>p. p\<lparr>props_networkV := nv\<rparr>)
         else Inr (new_Signature r s v)) (\<lambda>result.
      assertError (SigRecord obj)
        (\<not> (obj_yParity obj \<noteq> Absent \<and> obj_yParity obj \<noteq> Present (get_yParity result)))
        ''yParity mismatch''
        (case obj_yParityAndS obj of
           Absent \<Rightarrow> Inr result
         | supplied \<Rightarrow>
             bind_result (get_yParityAndS result) (\<lambda>derived.
               assertError (SigRecord obj) (\<not> (supplied \<noteq> Present derived))
                 ''yParityAndS mismatch'' (Inr result))))"
    by (simp add: from_record_def Let_def r s sb v bind_result_def assertError_def
        assertArgument_def)
  also have "\<dots> = ?rhs"
    using n
    by (cases "obj_yParityAndS obj")
       (auto simp add: sb bind_result_def assertError_def
        assertArgument_def setStore_def get_yParityAndS_def get_yParity_def get_v_def get_s_def
        new_Signature_def)
  finally show ?thesis .
qed


lemma getBytes_error:
  "getBytes x name = Inl e \<Longrightarrow> e = INVALID_ARGUMENT ''invalid BytesLike value'' name (VBytes x)"
  by (auto simp: getBytes_def split: BytesLike.splits option.splits)

lemma from_v_not_noncanonical:
  "from_v sig v' y p \<noteq> Inl (INVALID_ARGUMENT ''non-canonical s'' name val)"
  by (auto dest!: getBytes_error simp: from_v_def bind_result_def getNormalizedV_BigIntV assertError_def
        assertArgument_def throwError_def getBigInt_def
      split: property.splits sum.splits if_splits BigNumberish.splits)

lemma and_7f_top_clear: "((b::byte) AND 0x7f) AND 0x80 = 0"
proof -
  have "(b AND 0x7f) AND 0x80 = b AND (0x7f AND 0x80)" by (simp only: and.assoc)
  also have "(0x7f :: byte) AND 0x80 = 0" by simp
  finally show ?thesis by simp
qed

lemma byte0_and_byte0: "byte0 (and_byte0 bs 0x7f) AND 0x80 = 0"
  by (cases bs) (simp_all add: byte0_def and_byte0_def and_7f_top_clear)

section \<open>Resolving \<open>v\<close> and \<open>s\<close> of a record\<close>

lemma from_record_Inr:
  assumes "from_record obj = Inr result"
  obtains r s sb nv v where "obj_r obj = Present r" and "isHexString r (ByteLength 32)"
    and "from_s (SigRecord obj) (obj_s obj) (obj_yParityAndS obj) = Inr s"
    and "getBytes (Str s) ''value'' = Inr sb" and "byte0 sb AND 0x80 = 0"
    and "from_v (SigRecord obj) (obj_v obj) (obj_yParityAndS obj) (obj_yParity obj) = Inr (nv, v)"
    and "result = (new_Signature r s v)\<lparr>props_networkV := nv\<rparr>"
proof -
  from assms obtain r where r: "obj_r obj = Present r"
    by (cases "obj_r obj") (simp_all add: from_record_def Let_def throwError_def)
  from assms r have hr: "isHexString r (ByteLength 32)"
    by (simp add: from_record_def Let_def assertError_def assertArgument_def split: if_splits)
  from assms r hr obtain s where
    s: "from_s (SigRecord obj) (obj_s obj) (obj_yParityAndS obj) = Inr s"
    by (cases "from_s (SigRecord obj) (obj_s obj) (obj_yParityAndS obj)")
       (simp_all add: from_record_def Let_def assertError_def assertArgument_def bind_result_def)
  from assms r hr s obtain sb where sb: "getBytes (Str s) ''value'' = Inr sb"
    by (cases "getBytes (Str s) ''value''")
       (simp_all add: from_record_def Let_def assertError_def assertArgument_def bind_result_def)
  from assms r hr s sb have c: "byte0 sb AND 0x80 = 0"
    by (simp add: from_record_def Let_def assertError_def assertArgument_def bind_result_def
        split: if_splits)
  from assms r hr s sb c obtain nv v where
    v: "from_v (SigRecord obj) (obj_v obj) (obj_yParityAndS obj) (obj_yParity obj) = Inr (nv, v)"
    by (cases "from_v (SigRecord obj) (obj_v obj) (obj_yParityAndS obj) (obj_yParity obj)")
       (auto simp add: from_record_def Let_def assertError_def assertArgument_def bind_result_def)
  from assms have "result = (new_Signature r s v)\<lparr>props_networkV := nv\<rparr>"
    unfolding from_record_tail [OF r hr s sb c v] by (simp split: if_splits)
  with r hr s sb c v show thesis using that by blast
qed

lemma from_record_v_error:
  assumes "obj_r obj = Present r" and "isHexString r (ByteLength 32)"
    and "from_s (SigRecord obj) (obj_s obj) (obj_yParityAndS obj) = Inr s"
    and "getBytes (Str s) ''value'' = Inr sb" and "byte0 sb AND 0x80 = 0"
    and "from_v (SigRecord obj) (obj_v obj) (obj_yParityAndS obj) (obj_yParity obj) = Inl e"
  shows "from_record obj = Inl e"
  using assms
  by (simp add: from_record_def Let_def assertError_def assertArgument_def bind_result_def)

lemma getBigInt_name: "getBigInt raw name = Inr bv \<Longrightarrow> getBigInt raw name' = Inr bv"
  by (cases raw) (auto simp: getBigInt_def assertArgument_def split: if_splits)



section \<open>Canonical \<open>s\<close>\<close>

lemma from_s_absent:
  assumes "\<forall>s. os \<noteq> Present s" and "from_s sig os oy = Inr s"
  obtains y yb where "oy = Present y" and "getBytes (Str y) ''value'' = Inr yb"
    and "s = hexlify_bytes (and_byte0 yb 0x7f)"
  using assms
  by (cases os; cases oy)
     (auto simp: from_s_def throwError_def assertError_def assertArgument_def bind_result_def
       split: if_splits sum.splits)

lemma from_record_derived_s:
  assumes "\<forall>s. obj_s obj \<noteq> Present s"
  shows "from_record obj \<noteq> Inl (INVALID_ARGUMENT ''non-canonical s'' name val)"
proof (cases "obj_r obj")
  case (Present r)
  show ?thesis
  proof (cases "isHexString r (ByteLength 32)")
    case hr: True
    show ?thesis
    proof (cases "from_s (SigRecord obj) (obj_s obj) (obj_yParityAndS obj)")
      case (Inl e)
      then have "e \<noteq> INVALID_ARGUMENT ''non-canonical s'' name val"
        using assms
        by (cases "obj_s obj"; cases "obj_yParityAndS obj")
           (auto dest!: getBytes_error simp: from_s_def throwError_def assertError_def
             assertArgument_def bind_result_def split: if_splits sum.splits)
      with Inl Present hr show ?thesis
        by (simp add: from_record_def Let_def assertError_def assertArgument_def bind_result_def)
    next
      case (Inr s)
      with assms obtain y yb where "obj_yParityAndS obj = Present y"
        and "s = hexlify_bytes (and_byte0 yb 0x7f)"
        by (rule from_s_absent)
      then have sb: "getBytes (Str s) ''value'' = Inr (and_byte0 yb 0x7f)"
        and c: "byte0 (and_byte0 yb 0x7f) AND 0x80 = 0"
        by (simp_all add: byte0_and_byte0)
      show ?thesis
      proof (cases "from_v (SigRecord obj) (obj_v obj) (obj_yParityAndS obj) (obj_yParity obj)")
        case (Inl e)
        then have "e \<noteq> INVALID_ARGUMENT ''non-canonical s'' name val"
          using from_v_not_noncanonical by metis
        with from_record_v_error [OF Present hr Inr sb c Inl] show ?thesis by simp
      next
        case v: (Inr p)
        obtain nv v where "p = (nv, v)" by (cases p)
        with v show ?thesis
          by (simp add: from_record_tail [OF Present hr Inr sb c])
      qed
    qed
  next
    case False
    with Present show ?thesis
      by (simp add: from_record_def Let_def assertError_def assertArgument_def)
  qed
qed (simp_all add: from_record_def Let_def throwError_def)

lemma from_record_s_rejected:
  assumes "obj_s obj = Present s" and "getBytes (Str s) ''value'' = Inr sb"
    and "byte0 sb AND 0x80 \<noteq> 0"
  shows "\<exists>e. from_record obj = Inl e"
    and "obj_r obj = Present r \<Longrightarrow> isHexString r (ByteLength 32) \<Longrightarrow>
         isHexString s (ByteLength 32) \<Longrightarrow>
         from_record obj =
           Inl (INVALID_ARGUMENT ''non-canonical s'' ''signature'' (VSignatureLike (SigRecord obj)))"
  using assms
  by (auto simp: from_record_def Let_def assertError_def assertArgument_def bind_result_def
        throwError_def from_s_def split: property.splits)

text \<open>
  Claim C2. \<^verbatim>\<open>from\<close> rejects an \<open>s\<close> whose top bit is set. A string of 65 bytes whose
  byte 32 has the bit \<^verbatim>\<open>0x80\<close> fails with \<^verbatim>\<open>non-canonical s\<close>. A record whose explicit
  \<open>s\<close> has the bit set always fails, and with \<^verbatim>\<open>non-canonical s\<close> when its \<open>r\<close> and
  \<open>s\<close> are hex strings of 32 bytes. A string of 64 bytes is always accepted, and a record
  without an explicit \<open>s\<close>, whose \<open>s\<close> comes from \<open>yParityAndS\<close>, never fails with
  \<^verbatim>\<open>non-canonical s\<close>.
\<close>

theorem non_canonical_s_rejected:
  "(\<forall>str bytes. getBytes (Str str) ''signature'' = Inr bytes \<and> length bytes = 65 \<and>
       bytes ! 32 AND 0x80 \<noteq> 0 \<longrightarrow>
     from (SigString str) =
       Inl (INVALID_ARGUMENT ''non-canonical s'' ''signature'' (VSignatureLike (SigString str)))) \<and>
   (\<forall>obj s sb. obj_s obj = Present s \<and> getBytes (Str s) ''value'' = Inr sb \<and>
       byte0 sb AND 0x80 \<noteq> 0 \<longrightarrow>
     (\<exists>e. from (SigRecord obj) = Inl e) \<and>
     (\<forall>r. obj_r obj = Present r \<and> isHexString r (ByteLength 32) \<and>
          isHexString s (ByteLength 32) \<longrightarrow>
        from (SigRecord obj) =
          Inl (INVALID_ARGUMENT ''non-canonical s'' ''signature''
                 (VSignatureLike (SigRecord obj))))) \<and>
   (\<forall>str bytes. getBytes (Str str) ''signature'' = Inr bytes \<and> length bytes = 64 \<longrightarrow>
     (\<exists>result. from (SigString str) = Inr result)) \<and>
   (\<forall>obj name val. (\<forall>s. obj_s obj \<noteq> Present s) \<longrightarrow>
     from (SigRecord obj) \<noteq> Inl (INVALID_ARGUMENT ''non-canonical s'' name val))"
proof (intro conjI allI impI; (elim conjE)?)
  fix str bytes
  assume "getBytes (Str str) ''signature'' = Inr bytes" "length bytes = 65"
    "bytes ! 32 AND 0x80 \<noteq> 0"
  then show "from (SigString str) =
       Inl (INVALID_ARGUMENT ''non-canonical s'' ''signature'' (VSignatureLike (SigString str)))"
    by (simp add: from_def bind_result_def Let_def byte0_take_drop assertError_def
          assertArgument_def)
next
  fix obj :: SigObject and s sb
  assume "obj_s obj = Present s" "getBytes (Str s) ''value'' = Inr sb" "byte0 sb AND 0x80 \<noteq> 0"
  then show "\<exists>e. from (SigRecord obj) = Inl e"
    using from_record_s_rejected(1) by (simp add: from_def)
next
  fix obj :: SigObject and s sb r
  assume "obj_s obj = Present s" "getBytes (Str s) ''value'' = Inr sb" "byte0 sb AND 0x80 \<noteq> 0"
    "obj_r obj = Present r" "isHexString r (ByteLength 32)" "isHexString s (ByteLength 32)"
  then show "from (SigRecord obj) =
          Inl (INVALID_ARGUMENT ''non-canonical s'' ''signature'' (VSignatureLike (SigRecord obj)))"
    using from_record_s_rejected(2) by (simp add: from_def)
next
  fix str bytes
  assume "getBytes (Str str) ''signature'' = Inr bytes" "length bytes = 64"
  then show "\<exists>result. from (SigString str) = Inr result"
    by (simp add: from_def bind_result_def Let_def)
next
  fix obj :: SigObject and name val
  assume "\<forall>s. obj_s obj \<noteq> Present s"
  then show "from (SigRecord obj) \<noteq> Inl (INVALID_ARGUMENT ''non-canonical s'' name val)"
    using from_record_derived_s by (simp add: from_def)
qed


theorem non_canonical_s_rejected_witness:
  "from (SigString ''0x111111111111111111111111111111111111111111111111111111111111111180000000000000000000000000000000000000000000000000000000000000001b'') =
     Inl (INVALID_ARGUMENT ''non-canonical s'' ''signature'' (VSignatureLike (SigString ''0x111111111111111111111111111111111111111111111111111111111111111180000000000000000000000000000000000000000000000000000000000000001b'')))"
proof -
  define str where "str = ''0x111111111111111111111111111111111111111111111111111111111111111180000000000000000000000000000000000000000000000000000000000000001b''"
  define bytes :: "byte list" where "bytes = [0x11, 0x11, 0x11, 0x11, 0x11, 0x11, 0x11, 0x11, 0x11, 0x11, 0x11, 0x11, 0x11, 0x11, 0x11, 0x11, 0x11, 0x11, 0x11, 0x11, 0x11, 0x11, 0x11, 0x11, 0x11, 0x11, 0x11, 0x11, 0x11, 0x11, 0x11, 0x11, 0x80, 0, 0, 0, 0, 0, 0, 0, 0, 0, 0, 0, 0, 0, 0, 0, 0, 0, 0, 0, 0, 0, 0, 0, 0, 0, 0, 0, 0, 0, 0, 0, 0x1b]"
  have g: "getBytes (Str str) ''signature'' = Inr bytes"
    unfolding str_def bytes_def by code_simp
  have l: "length bytes = 65" unfolding bytes_def by simp
  have b: "bytes ! 32 AND 0x80 \<noteq> 0" unfolding bytes_def by simp
  have "from (SigString str) =
     Inl (INVALID_ARGUMENT ''non-canonical s'' ''signature'' (VSignatureLike (SigString str)))"
    by (rule non_canonical_s_rejected [THEN conjunct1, rule_format, of str bytes])
       (simp add: g l b)
  then show ?thesis unfolding str_def .
qed

section \<open>Instances and their chain binding\<close>

lemma clone_eq:
  assumes "props_networkV this \<noteq> Some 0"
  shows "clone this = Inr ((new_Signature (props_r this) (props_s this) (props_v this))
           \<lparr>props_networkV := props_networkV this\<rparr>)"
  using assms
  by (cases "props_networkV this")
     (simp_all add: clone_def Let_def truthy_def setStore_def new_Signature_def get_r_def
        get_s_def get_v_def get_networkV_def)

lemma clone_networkV_cases:
  assumes "clone this = Inr this'"
  shows "props_networkV this' = (if props_networkV this = Some 0 then None else props_networkV this)"
  using assms
  by (cases "props_networkV this")
     (auto simp add: clone_def Let_def truthy_def setStore_def new_Signature_def get_r_def
        get_s_def get_v_def get_networkV_def split: if_splits)

lemma setStore_Inr:
  "setStore store key write = Inr store' \<longleftrightarrow> \<not> props_frozen store \<and> store' = write store"
  by (auto simp: setStore_def)

lemma set_r_networkV: "set_r this value = Inr this' \<Longrightarrow> props_networkV this' = props_networkV this"
  by (auto simp: set_r_def bind_result_def assertArgument_def setStore_Inr
      split: sum.splits if_splits)

lemma set_s_networkV: "set_s this value = Inr this' \<Longrightarrow> props_networkV this' = props_networkV this"
  by (auto simp: set_s_def bind_result_def assertArgument_def setStore_Inr
      split: sum.splits if_splits)

lemma set_v_networkV: "set_v this n = Inr this' \<Longrightarrow> props_networkV this' = props_networkV this"
  by (auto simp: set_v_def bind_result_def assertArgument_def setStore_Inr
      split: sum.splits if_splits)

lemma from_string_networkV: "from (SigString str) = Inr this \<Longrightarrow> props_networkV this = None"
  by (auto simp: from_def bind_result_def Let_def assertError_def assertArgument_def
        throwError_def new_Signature_def split: sum.splits if_splits)

lemma from_record_networkV:
  assumes "from_record obj = Inr this"
  shows "props_networkV this = None \<or> (\<exists>n. props_networkV this = Some n \<and> 35 \<le> n)"
  using assms
proof (rule from_record_Inr)
  fix r s sb nv v
  assume "from_v (SigRecord obj) (obj_v obj) (obj_yParityAndS obj) (obj_yParity obj) = Inr (nv, v)"
    and "this = (new_Signature r s v)\<lparr>props_networkV := nv\<rparr>"
  then show ?thesis using from_v_range by fastforce
qed

lemma produced_networkV:
  "produced this \<Longrightarrow>
     props_networkV this = None \<or> (\<exists>n. props_networkV this = Some n \<and> 35 \<le> n)"
proof (induction rule: produced.induct)
  case (by_from sig this)
  show ?case
  proof (cases sig)
    case SigNull
    with by_from show ?thesis by (auto simp add: from_def new_Signature_def)
  next
    case (SigString str)
    with by_from have "from (SigString str) = Inr this" by simp
    then show ?thesis by (simp add: from_string_networkV)
  next
    case (SigInstance x)
    with by_from show ?thesis by (simp add: is_instance_def)
  next
    case (SigRecord obj)
    with by_from have "from_record obj = Inr this" by (simp add: from_def)
    then show ?thesis by (rule from_record_networkV)
  qed
next
  case (by_from_instance this this')
  then show ?case by (auto simp: from_def dest!: clone_networkV_cases)
next
  case (by_clone this this')
  then show ?case by (auto dest!: clone_networkV_cases)
next
  case (by_freeze this)
  then show ?case by (simp add: freeze_def)
next
  case (by_set_r this "value" this')
  then show ?case by (simp add: set_r_networkV)
next
  case (by_set_s this "value" this')
  then show ?case by (simp add: set_s_networkV)
next
  case (by_set_v this n this')
  then show ?case by (simp add: set_v_networkV)
qed

text \<open>
  Claim C10. Every instance of the factory surface has a \<open>networkV\<close> that is \<^verbatim>\<open>null\<close> or
  at least 35, never 0 and never a positive value below 35; so the truthiness guard of
  \<^verbatim>\<open>clone\<close> never drops one, and the copy carries the same \<open>networkV\<close>.
\<close>

theorem networkV_null_or_chain_bound:
  assumes "produced this"
  shows "(get_networkV this = None \<or> (\<exists>n. get_networkV this = Some n \<and> 35 \<le> n)) \<and>
         get_networkV this \<noteq> Some 0 \<and>
         (\<forall>n. get_networkV this = Some n \<longrightarrow> \<not> (0 < n \<and> n < 35)) \<and>
         (\<exists>copy. clone this = Inr copy \<and> get_networkV copy = get_networkV this)"
proof -
  from assms have n: "props_networkV this = None \<or> (\<exists>n. props_networkV this = Some n \<and> 35 \<le> n)"
    by (rule produced_networkV)
  then have z: "props_networkV this \<noteq> Some 0" by auto
  from n z clone_eq [OF z] show ?thesis
    by (auto simp: get_networkV_def)
qed


theorem networkV_null_or_chain_bound_witness:
  "produced \<lparr>props_r = ''0x1111111111111111111111111111111111111111111111111111111111111111'', props_s = ''0x0000000000000000000000000000000000000000000000000000000000000001'', props_v = 27, props_networkV = Some 37,
      props_frozen = False\<rparr>
   \<and> (\<exists>copy. clone \<lparr>props_r = ''0x1111111111111111111111111111111111111111111111111111111111111111'', props_s = ''0x0000000000000000000000000000000000000000000000000000000000000001'', props_v = 27, props_networkV = Some 37,
      props_frozen = False\<rparr> = Inr copy \<and> get_networkV copy = Some 37)"
proof -
  define obj where "obj = \<lparr>obj_r = Present ''0x1111111111111111111111111111111111111111111111111111111111111111'', obj_s = Present ''0x0000000000000000000000000000000000000000000000000000000000000001'',
     obj_v = Present (BigIntV 37), obj_yParity = Absent, obj_yParityAndS = Absent\<rparr>"
  define this where "this = \<lparr>props_r = ''0x1111111111111111111111111111111111111111111111111111111111111111'', props_s = ''0x0000000000000000000000000000000000000000000000000000000000000001'', props_v = 27,
     props_networkV = Some 37, props_frozen = False\<rparr>"
  have "from (SigRecord obj) = Inr this"
    unfolding obj_def this_def by code_simp
  moreover have "\<not> is_instance (SigRecord obj)" by (simp add: is_instance_def)
  ultimately have p: "produced this" by (rule by_from [rotated])
  have "get_networkV this = Some 37" by (simp add: this_def get_networkV_def)
  with networkV_null_or_chain_bound [OF p]
  have "\<exists>copy. clone this = Inr copy \<and> get_networkV copy = Some 37" by simp
  with p show ?thesis unfolding this_def by (rule conjI)
qed

section \<open>Freezing\<close>

lemma frozen_set_r: "props_frozen this \<Longrightarrow> \<exists>e. set_r this value = Inl e"
  by (auto simp: set_r_def bind_result_def assertArgument_def setStore_def split: sum.splits)

lemma frozen_set_s: "props_frozen this \<Longrightarrow> \<exists>e. set_s this value = Inl e"
  by (auto simp: set_s_def bind_result_def assertArgument_def setStore_def split: sum.splits)

lemma frozen_set_v: "props_frozen this \<Longrightarrow> \<exists>e. set_v this n = Inl e"
  by (auto simp: set_v_def bind_result_def assertArgument_def setStore_def split: sum.splits)

text \<open>
  Claim C9. After \<^verbatim>\<open>freeze()\<close> every call of the setters of \<open>r\<close>, \<open>s\<close> and \<open>v\<close> fails and
  leaves the store as it was, every getter returns what it returned before the freeze,
  and \<^verbatim>\<open>clone()\<close> of the frozen instance returns an instance that is not frozen and has
  the same \<open>r\<close>, \<open>s\<close>, \<open>v\<close> and \<open>networkV\<close>.
\<close>

theorem freeze_semantics:
  assumes "produced this"
  shows "isFrozen (freeze this) \<and>
    (\<forall>value. \<exists>e. set_r (freeze this) value = Inl e) \<and>
    (\<forall>value. \<exists>e. set_s (freeze this) value = Inl e) \<and>
    (\<forall>n. \<exists>e. set_v (freeze this) n = Inl e) \<and>
    (\<forall>value. store_after (freeze this) (set_r (freeze this) value) = freeze this) \<and>
    (\<forall>value. store_after (freeze this) (set_s (freeze this) value) = freeze this) \<and>
    (\<forall>n. store_after (freeze this) (set_v (freeze this) n) = freeze this) \<and>
    get_r (freeze this) = get_r this \<and> get_s (freeze this) = get_s this \<and>
    get_v (freeze this) = get_v this \<and> get_networkV (freeze this) = get_networkV this \<and>
    get_yParity (freeze this) = get_yParity this \<and>
    get_yParityAndS (freeze this) = get_yParityAndS this \<and>
    get_serialized (freeze this) = get_serialized this \<and>
    get_compactSerialized (freeze this) = get_compactSerialized this \<and>
    get_legacyChainId (freeze this) = get_legacyChainId this \<and>
    (\<exists>copy. clone (freeze this) = Inr copy \<and> \<not> isFrozen copy \<and>
       get_r copy = get_r this \<and> get_s copy = get_s this \<and> get_v copy = get_v this \<and>
       get_networkV copy = get_networkV this)"
proof -
  have fr: "props_frozen (freeze this)" by (simp add: freeze_def)
  have setters: "\<exists>e. set_r (freeze this) value = Inl e" "\<exists>e. set_s (freeze this) value = Inl e"
    "\<exists>e. set_v (freeze this) n = Inl e" for "value" n
    using fr by (rule frozen_set_r frozen_set_s frozen_set_v)+
  have after_r: "store_after (freeze this) (set_r (freeze this) value) = freeze this" for "value"
    using frozen_set_r [OF fr, of "value"] by (auto simp: store_after_def)
  have after_s: "store_after (freeze this) (set_s (freeze this) value) = freeze this" for "value"
    using frozen_set_s [OF fr, of "value"] by (auto simp: store_after_def)
  have after_v: "store_after (freeze this) (set_v (freeze this) n) = freeze this" for n
    using frozen_set_v [OF fr, of n] by (auto simp: store_after_def)
  have getters: "get_r (freeze this) = get_r this" "get_s (freeze this) = get_s this"
    "get_v (freeze this) = get_v this" "get_networkV (freeze this) = get_networkV this"
    by (simp_all add: freeze_def get_r_def get_s_def get_v_def get_networkV_def)
  have derived: "get_yParity (freeze this) = get_yParity this"
    "get_yParityAndS (freeze this) = get_yParityAndS this"
    "get_serialized (freeze this) = get_serialized this"
    "get_compactSerialized (freeze this) = get_compactSerialized this"
    "get_legacyChainId (freeze this) = get_legacyChainId this"
    by (simp_all add: get_yParity_def get_yParityAndS_def get_serialized_def
          get_compactSerialized_def get_legacyChainId_def getters)
  from assms have "props_networkV this = None \<or> (\<exists>n. props_networkV this = Some n \<and> 35 \<le> n)"
    by (rule produced_networkV)
  then have "props_networkV (freeze this) \<noteq> Some 0" by (auto simp: freeze_def)
  from clone_eq [OF this]
  have copy: "\<exists>copy. clone (freeze this) = Inr copy \<and> \<not> isFrozen copy \<and>
       get_r copy = get_r this \<and> get_s copy = get_s this \<and> get_v copy = get_v this \<and>
       get_networkV copy = get_networkV this"
    by (simp add: freeze_def isFrozen_def new_Signature_def get_r_def get_s_def get_v_def
          get_networkV_def)
  show ?thesis
    using fr setters after_r after_s after_v getters derived copy
    by (simp add: isFrozen_def)
qed

theorem freeze_semantics_witness:
  "produced (new_Signature ZeroHash ZeroHash 27)
   \<and> (\<exists>e. set_v (freeze (new_Signature ZeroHash ZeroHash 27)) (NumberV 28) = Inl e)
   \<and> get_v (freeze (new_Signature ZeroHash ZeroHash 27)) = 27
   \<and> (\<exists>copy. clone (freeze (new_Signature ZeroHash ZeroHash 27)) = Inr copy \<and> \<not> isFrozen copy
        \<and> get_v copy = 27)"
proof -
  have "from SigNull = Inr (new_Signature ZeroHash ZeroHash 27)" by (simp add: from_def)
  moreover have "\<not> is_instance SigNull" by (simp add: is_instance_def)
  ultimately have p: "produced (new_Signature ZeroHash ZeroHash 27)" by (rule by_from [rotated])
  have v: "get_v (new_Signature ZeroHash ZeroHash 27) = 27"
    by (simp add: get_v_def new_Signature_def)
  note f = freeze_semantics [OF p]
  from f have "\<exists>e. set_v (freeze (new_Signature ZeroHash ZeroHash 27)) (NumberV 28) = Inl e"
    by blast
  moreover from f v have "get_v (freeze (new_Signature ZeroHash ZeroHash 27)) = 27"
    by simp
  moreover from f v have "\<exists>copy. clone (freeze (new_Signature ZeroHash ZeroHash 27)) = Inr copy
      \<and> \<not> isFrozen copy \<and> get_v copy = 27"
    by auto
  ultimately show ?thesis using p by simp
qed

section \<open>The setters\<close>

lemma parseHexPairs_length: "parseHexPairs cs = Some bs \<Longrightarrow> length cs = 2 * length bs"
  by (induction cs arbitrary: bs rule: parseHexPairs.induct)
     (auto split: option.splits)

lemma getBytes_Str_length:
  "getBytes (Str st) name = Inr bs \<Longrightarrow> length st = 2 + 2 * length bs"
proof -
  assume a: "getBytes (Str st) name = Inr bs"
  then have p: "parseHexPairs (drop 2 st) = Some bs"
    and t: "take 2 st = ''0x'' \<or> take 2 st = ''0X''"
    by (auto simp: getBytes_def split: option.splits if_splits)
  from t have "2 \<le> length st" by (cases st; cases "tl st") auto
  with parseHexPairs_length [OF p] show ?thesis by simp
qed

lemma dataLength_getBytes:
  assumes "getBytes value ''value'' = Inr bs"
  shows "dataLength value = Inr (length bs)"
proof (cases "value")
  case (Str st)
  with assms have "length st = 2 + 2 * length bs" by (simp add: getBytes_Str_length)
  with Str assms show ?thesis by (simp add: dataLength_def bind_result_def)
next
  case (U8 x)
  with assms show ?thesis by (simp add: dataLength_def getBytes_def)
qed

lemma set_r_stores:
  assumes "getBytes value ''value'' = Inr bs"
  shows "set_r this value =
    (if length bs \<noteq> 32 then Inl (INVALID_ARGUMENT ''invalid r'' ''value'' (VBytes value))
     else if props_frozen this then Inl (FROZEN ''r'')
     else Inr (this\<lparr>props_r := hexlify_bytes bs\<rparr>))"
  by (simp add: set_r_def dataLength_getBytes [OF assms] assms bind_result_def assertArgument_def
        hexlify_def setStore_def)

lemma set_s_stores:
  assumes "getBytes value ''value'' = Inr bs"
  shows "set_s this value =
    (if length bs \<noteq> 32 then Inl (INVALID_ARGUMENT ''invalid r'' ''value'' (VBytes value))
     else if byte0 bs AND 0x80 \<noteq> 0
       then Inl (INVALID_ARGUMENT ''non-canonical s'' ''value'' (VBytes value))
     else if props_frozen this then Inl (FROZEN ''s'')
     else Inr (this\<lparr>props_s := hexlify_bytes bs\<rparr>))"
  by (simp add: set_s_def dataLength_getBytes [OF assms] assms bind_result_def assertArgument_def
        hexlify_def setStore_def)

lemma set_v_stores:
  assumes "getNumber value ''value'' = Inr n"
  shows "set_v this value =
    (if n \<noteq> 27 \<and> n \<noteq> 28 then Inl (INVALID_ARGUMENT ''invalid v'' ''v'' (VNumeric value))
     else if props_frozen this then Inl (FROZEN ''v'')
     else Inr (this\<lparr>props_v := n\<rparr>))"
  by (auto simp add: set_v_def assms bind_result_def assertArgument_def setStore_def)

text \<open>
  Claim C8. The setters validate before they store, and a failing call leaves the store
  as it was. The error of the setter of \<open>s\<close> for data of the wrong length, though, is
  the one of the setter of \<open>r\<close>: its message is \<^verbatim>\<open>invalid r\<close>. Here the setter of \<open>s\<close>
  is given the two bytes \<^verbatim>\<open>0x1234\<close>.
\<close>

theorem set_s_wrong_length_reports_r:
  "set_s this (Str ''0x1234'') =
     Inl (INVALID_ARGUMENT ''invalid r'' ''value'' (VBytes (Str ''0x1234'')))
   \<and> store_after this (set_s this (Str ''0x1234'')) = this
   \<and> set_r this (Str ''0x1234'') =
     Inl (INVALID_ARGUMENT ''invalid r'' ''value'' (VBytes (Str ''0x1234'')))"
proof -
  have "getBytes (Str ''0x1234'') ''value'' = Inr [0x12, 0x34]"
    by (simp add: getBytes_def hexDigit_def)
  then show ?thesis
    by (simp add: set_s_stores set_r_stores store_after_def)
qed

section \<open>The binary forms and back\<close>

lemma byte_top_split:
  fixes b :: byte
  assumes "b AND 0x80 = 0"
  shows "(b OR 0x80) AND 0x7f = b" and "(b OR 0x80) AND 0x80 \<noteq> 0" and "b AND 0x7f = b"
proof -
  have full: "(0x7f :: byte) OR 0x80 = - 1" by simp
  have "b = b AND ((0x7f :: byte) OR 0x80)" unfolding full by simp
  also have "\<dots> = (b AND 0x7f) OR (b AND 0x80)" by (simp only: bit.conj_disj_distrib)
  finally show low: "b AND 0x7f = b" using assms by simp
  have "(b OR 0x80) AND 0x7f = (b AND 0x7f) OR ((0x80 :: byte) AND 0x7f)"
    by (simp only: bit.conj_disj_distrib2)
  also have "((0x80 :: byte) AND 0x7f) = 0" by simp
  finally show "(b OR 0x80) AND 0x7f = b" using low by simp
  have "(b OR 0x80) AND 0x80 = (b AND 0x80) OR ((0x80 :: byte) AND 0x80)"
    by (simp only: bit.conj_disj_distrib2)
  then show "(b OR 0x80) AND 0x80 \<noteq> 0" using assms by simp
qed

lemma hexlify_Str: "getBytes (Str st) ''value'' = Inr bs \<Longrightarrow> hexlify (Str st) = Inr (hexlify_bytes bs)"
  by (simp add: hexlify_def bind_result_def)

lemma concat_data_two:
  assumes "getBytes (Str a) ''value'' = Inr as" and "getBytes (Str b) ''value'' = Inr bs"
  shows "concat_data [Str a, Str b] = Inr (hexlify_bytes (as @ bs))"
  by (simp add: concat_data_def bind_result_def hexlify_Str [OF assms(1)] hexlify_Str [OF assms(2)]
        hexlify_bytes_def)

lemma concat_data_three:
  assumes "getBytes (Str a) ''value'' = Inr as" and "getBytes (Str b) ''value'' = Inr bs"
    and "getBytes (Str c) ''value'' = Inr cs"
  shows "concat_data [Str a, Str b, Str c] = Inr (hexlify_bytes (as @ bs @ cs))"
  by (simp add: concat_data_def bind_result_def hexlify_Str [OF assms(1)] hexlify_Str [OF assms(2)]
        hexlify_Str [OF assms(3)] hexlify_bytes_def)

lemma invariant_bytes:
  assumes "invariant this"
  obtains rb sb where "getBytes (Str (get_r this)) ''value'' = Inr rb" and "length rb = 32"
    and "getBytes (Str (get_s this)) ''value'' = Inr sb" and "length sb = 32"
    and "byte0 sb AND 0x80 = 0" and "get_v this = 27 \<or> get_v this = 28"
proof -
  from assms have hr: "isHexString (get_r this) (ByteLength 32)"
    and hs: "isHexString (get_s this) (ByteLength 32)"
    and v: "get_v this = 27 \<or> get_v this = 28"
    by (simp_all add: invariant_def)
  from hr obtain rb where rb: "getBytes (Str (get_r this)) ''value'' = Inr rb" "length rb = 32"
    by (rule isHexString_getBytes)
  from hs obtain sb where sb: "getBytes (Str (get_s this)) ''value'' = Inr sb" "length sb = 32"
    by (rule isHexString_getBytes)
  from assms sb have "byte0 sb AND 0x80 = 0" by (simp add: invariant_def)
  with rb sb v show thesis using that by blast
qed

lemma serialized_roundtrip:
  assumes "invariant this"
    and "getBytes (Str (get_r this)) ''value'' = Inr rb"
    and "getBytes (Str (get_s this)) ''value'' = Inr sb"
  shows "\<exists>text. get_serialized this = Inr text \<and>
           from (SigString text) =
             Inr (new_Signature (hexlify_bytes rb) (hexlify_bytes sb) (get_v this))"
proof -
  from assms(1) obtain rb' sb' where "getBytes (Str (get_r this)) ''value'' = Inr rb'"
    "length rb' = 32" "getBytes (Str (get_s this)) ''value'' = Inr sb'" "length sb' = 32"
    "byte0 sb' AND 0x80 = 0" and v: "get_v this = 27 \<or> get_v this = 28"
    by (rule invariant_bytes)
  with assms(2,3) have len: "length rb = 32" "length sb = 32" and c: "byte0 sb AND 0x80 = 0"
    by simp_all
  define last :: byte where "last = (if get_yParity this \<noteq> 0 then 0x1c else 0x1b)"
  have lb: "getBytes (Str (if get_yParity this \<noteq> 0 then ''0x1c'' else ''0x1b'')) ''value''
      = Inr [last]"
    by (simp add: last_def getBytes_def hexDigit_def)
  have ser: "get_serialized this = Inr (hexlify_bytes (rb @ sb @ [last]))"
    unfolding get_serialized_def by (rule concat_data_three [OF assms(2,3) lb])
  have nv: "getNormalizedV (NumberV (uint last)) = Inr (get_v this)"
    using v
    by (auto simp: last_def get_yParity_def getNormalizedV_def getBigInt_def bind_result_def
          assertArgument_def maxValue_def BN_0_def BN_1_def)
  have "from (SigString (hexlify_bytes (rb @ sb @ [last]))) =
      Inr (new_Signature (hexlify_bytes rb) (hexlify_bytes sb) (get_v this))"
    using len c
    by (simp add: from_def bind_result_def Let_def assertError_def assertArgument_def nv
          nth_append)
  with ser show ?thesis by blast
qed

lemma compactSerialized_roundtrip:
  assumes "invariant this"
    and "getBytes (Str (get_r this)) ''value'' = Inr rb"
    and "getBytes (Str (get_s this)) ''value'' = Inr sb"
  shows "\<exists>text. get_compactSerialized this = Inr text \<and>
           from (SigString text) =
             Inr (new_Signature (hexlify_bytes rb) (hexlify_bytes sb) (get_v this))"
proof -
  from assms(1) obtain rb' sb' where "getBytes (Str (get_r this)) ''value'' = Inr rb'"
    "length rb' = 32" "getBytes (Str (get_s this)) ''value'' = Inr sb'" "length sb' = 32"
    "byte0 sb' AND 0x80 = 0" and v: "get_v this = 27 \<or> get_v this = 28"
    by (rule invariant_bytes)
  with assms(2,3) have len: "length rb = 32" "length sb = 32" and c: "byte0 sb AND 0x80 = 0"
    by simp_all
  from len obtain b bs where sb: "sb = b # bs" by (cases sb) auto
  with c have b: "b AND 0x80 = 0" by (simp add: byte0_def)
  define ys where "ys = (if get_yParity this \<noteq> 0 then or_byte0 sb 0x80 else sb)"
  have ly: "length ys = 32" using len by (simp add: ys_def or_byte0_def sb)
  have y: "get_yParityAndS this = Inr (hexlify_bytes ys)"
    by (simp add: get_yParityAndS_def assms(3) bind_result_def ys_def)
  have ser: "get_compactSerialized this = Inr (hexlify_bytes (rb @ ys))"
    unfolding get_compactSerialized_def
    by (simp add: y bind_result_def concat_data_two [OF assms(2)])
  have top: "(if byte0 ys AND 0x80 \<noteq> 0 then 28 else 27) = get_v this"
    using v b byte_top_split(2) [OF b]
    by (auto simp: ys_def get_yParity_def sb or_byte0_def byte0_def)
  have clr: "and_byte0 ys 0x7f = sb"
  proof (cases "get_yParity this \<noteq> 0")
    case True
    then show ?thesis
      by (simp add: ys_def sb or_byte0_def and_byte0_def byte_top_split(1) [OF b])
  next
    case False
    with byte_top_split(3) [OF b] show ?thesis by (simp add: ys_def sb and_byte0_def)
  qed
  have "from (SigString (hexlify_bytes (rb @ ys))) =
      Inr (new_Signature (hexlify_bytes rb) (hexlify_bytes sb) (get_v this))"
    using len ly
    by (simp add: from_def bind_result_def Let_def top clr)
  with ser show ?thesis by blast
qed


text \<open>
  Claim C5, as amended. For every instance that meets the invariants, \<^verbatim>\<open>from\<close> of its
  \<^verbatim>\<open>serialized\<close> and \<^verbatim>\<open>from\<close> of its \<^verbatim>\<open>compactSerialized\<close> both succeed and return the
  instance whose \<open>r\<close> and \<open>s\<close> are the lower-case hex text of the bytes of the original
  \<open>r\<close> and \<open>s\<close>, whose \<open>v\<close> is the original \<open>v\<close> and whose \<open>networkV\<close> is \<^verbatim>\<open>null\<close>; \<open>r\<close> and
  \<open>s\<close> are the original texts whenever those are already in lower case.
\<close>

theorem binary_roundtrip:
  assumes "invariant this"
  shows "\<exists>rb sb wire cwire again.
    getBytes (Str (get_r this)) ''value'' = Inr rb \<and>
    getBytes (Str (get_s this)) ''value'' = Inr sb \<and>
    get_serialized this = Inr wire \<and> get_compactSerialized this = Inr cwire \<and>
    from (SigString wire) = Inr again \<and> from (SigString cwire) = Inr again \<and>
    get_r again = hexlify_bytes rb \<and> get_s again = hexlify_bytes sb \<and>
    getBytes (Str (get_r again)) ''value'' = Inr rb \<and>
    getBytes (Str (get_s again)) ''value'' = Inr sb \<and>
    get_v again = get_v this \<and> get_networkV again = None \<and>
    (get_r this = hexlify_bytes rb \<longrightarrow> get_r again = get_r this) \<and>
    (get_s this = hexlify_bytes sb \<longrightarrow> get_s again = get_s this)"
proof -
  from assms obtain rb sb where rb: "getBytes (Str (get_r this)) ''value'' = Inr rb"
    and sb: "getBytes (Str (get_s this)) ''value'' = Inr sb"
    by (rule invariant_bytes)
  let ?again = "new_Signature (hexlify_bytes rb) (hexlify_bytes sb) (get_v this)"
  from serialized_roundtrip [OF assms rb sb] obtain wire where
    t: "get_serialized this = Inr wire" "from (SigString wire) = Inr ?again" by blast
  from compactSerialized_roundtrip [OF assms rb sb] obtain cwire where
    c: "get_compactSerialized this = Inr cwire" "from (SigString cwire) = Inr ?again" by blast
  have "get_r ?again = hexlify_bytes rb" "get_s ?again = hexlify_bytes sb"
    "get_v ?again = get_v this" "get_networkV ?again = None"
    by (simp_all add: new_Signature_def get_r_def get_s_def get_v_def get_networkV_def)
  with rb sb t c show ?thesis
    by (intro exI [of _ rb] exI [of _ sb] exI [of _ wire] exI [of _ cwire] exI [of _ ?again])
       simp
qed

theorem binary_roundtrip_witness:
  "\<exists>wire again. get_serialized (new_Signature ''0x1111111111111111111111111111111111111111111111111111111111111111'' ''0x0000000000000000000000000000000000000000000000000000000000000001'' 28) = Inr wire \<and>
     from (SigString wire) = Inr again \<and> get_r again = ''0x1111111111111111111111111111111111111111111111111111111111111111'' \<and> get_s again = ''0x0000000000000000000000000000000000000000000000000000000000000001'' \<and> get_v again = 28"
proof -
  define r where "r = ''0x1111111111111111111111111111111111111111111111111111111111111111''"
  define s where "s = ''0x0000000000000000000000000000000000000000000000000000000000000001''"
  define rb :: "byte list" where "rb = [0x11, 0x11, 0x11, 0x11, 0x11, 0x11, 0x11, 0x11, 0x11, 0x11, 0x11, 0x11, 0x11, 0x11, 0x11, 0x11, 0x11, 0x11, 0x11, 0x11, 0x11, 0x11, 0x11, 0x11, 0x11, 0x11, 0x11, 0x11, 0x11, 0x11, 0x11, 0x11]"
  define sb :: "byte list" where "sb = [0, 0, 0, 0, 0, 0, 0, 0, 0, 0, 0, 0, 0, 0, 0, 0, 0, 0, 0, 0, 0, 0, 0, 0, 0, 0, 0, 0, 0, 0, 0, 1]"
  define this where "this = new_Signature r s 28"
  have g: "get_r this = r" "get_s this = s" "get_v this = 28"
    by (simp_all add: this_def new_Signature_def get_r_def get_s_def get_v_def)
  have hr: "isHexString r (ByteLength 32)" unfolding r_def by code_simp
  have hs: "isHexString s (ByteLength 32)" unfolding s_def by code_simp
  have br: "getBytes (Str r) ''value'' = Inr rb" unfolding r_def rb_def by code_simp
  have bs: "getBytes (Str s) ''value'' = Inr sb" unfolding s_def sb_def by code_simp
  have c: "byte0 sb AND 0x80 = 0" unfolding sb_def by (simp add: byte0_def)
  have xr: "hexlify_bytes rb = r" unfolding r_def rb_def by code_simp
  have xs: "hexlify_bytes sb = s" unfolding s_def sb_def by code_simp
  have inv: "invariant this" by (simp add: invariant_def g hr hs bs c)
  from binary_roundtrip [OF inv] obtain rb' sb' wire cwire again where
    "getBytes (Str (get_r this)) ''value'' = Inr rb'"
    "getBytes (Str (get_s this)) ''value'' = Inr sb'"
    "get_serialized this = Inr wire" "get_compactSerialized this = Inr cwire"
    "from (SigString wire) = Inr again"
    "get_r again = hexlify_bytes rb'" "get_s again = hexlify_bytes sb'" "get_v again = get_v this"
    by blast
  with g br bs xr xs have "get_serialized this = Inr wire \<and>
     from (SigString wire) = Inr again \<and> get_r again = r \<and> get_s again = s \<and> get_v again = 28"
    by simp
  then show ?thesis unfolding this_def r_def s_def by blast
qed

text \<open>
  The claim as it is written fails at an instance whose \<open>r\<close> holds upper-case digits:
  \<^verbatim>\<open>from\<close> of a record keeps the text of \<open>r\<close> it is given, and the instance read back
  from \<^verbatim>\<open>serialized\<close> holds the lower-case text.
\<close>

theorem binary_roundtrip_counterexample:
  "from (SigRecord \<lparr>obj_r = Present ''0xAAAAAAAAAAAAAAAAAAAAAAAAAAAAAAAAAAAAAAAAAAAAAAAAAAAAAAAAAAAAAAAA'', obj_s = Present ''0x0000000000000000000000000000000000000000000000000000000000000001'', obj_v = Present (NumberV 27),
      obj_yParity = Absent, obj_yParityAndS = Absent\<rparr>) =
     Inr \<lparr>props_r = ''0xAAAAAAAAAAAAAAAAAAAAAAAAAAAAAAAAAAAAAAAAAAAAAAAAAAAAAAAAAAAAAAAA'', props_s = ''0x0000000000000000000000000000000000000000000000000000000000000001'', props_v = 27, props_networkV = None, props_frozen = False\<rparr>
   \<and> invariant \<lparr>props_r = ''0xAAAAAAAAAAAAAAAAAAAAAAAAAAAAAAAAAAAAAAAAAAAAAAAAAAAAAAAAAAAAAAAA'', props_s = ''0x0000000000000000000000000000000000000000000000000000000000000001'', props_v = 27, props_networkV = None,
        props_frozen = False\<rparr>
   \<and> get_serialized \<lparr>props_r = ''0xAAAAAAAAAAAAAAAAAAAAAAAAAAAAAAAAAAAAAAAAAAAAAAAAAAAAAAAAAAAAAAAA'', props_s = ''0x0000000000000000000000000000000000000000000000000000000000000001'', props_v = 27, props_networkV = None,
        props_frozen = False\<rparr> = Inr ''0xaaaaaaaaaaaaaaaaaaaaaaaaaaaaaaaaaaaaaaaaaaaaaaaaaaaaaaaaaaaaaaaa00000000000000000000000000000000000000000000000000000000000000011b''
   \<and> from (SigString ''0xaaaaaaaaaaaaaaaaaaaaaaaaaaaaaaaaaaaaaaaaaaaaaaaaaaaaaaaaaaaaaaaa00000000000000000000000000000000000000000000000000000000000000011b'') =
     Inr \<lparr>props_r = ''0xaaaaaaaaaaaaaaaaaaaaaaaaaaaaaaaaaaaaaaaaaaaaaaaaaaaaaaaaaaaaaaaa'', props_s = ''0x0000000000000000000000000000000000000000000000000000000000000001'', props_v = 27, props_networkV = None, props_frozen = False\<rparr>
   \<and> get_r \<lparr>props_r = ''0xaaaaaaaaaaaaaaaaaaaaaaaaaaaaaaaaaaaaaaaaaaaaaaaaaaaaaaaaaaaaaaaa'', props_s = ''0x0000000000000000000000000000000000000000000000000000000000000001'', props_v = 27, props_networkV = None,
        props_frozen = False\<rparr>
     \<noteq> get_r \<lparr>props_r = ''0xAAAAAAAAAAAAAAAAAAAAAAAAAAAAAAAAAAAAAAAAAAAAAAAAAAAAAAAAAAAAAAAA'', props_s = ''0x0000000000000000000000000000000000000000000000000000000000000001'', props_v = 27, props_networkV = None,
        props_frozen = False\<rparr>"
proof (intro conjI)
  show "get_r \<lparr>props_r = ''0xaaaaaaaaaaaaaaaaaaaaaaaaaaaaaaaaaaaaaaaaaaaaaaaaaaaaaaaaaaaaaaaa'', props_s = ''0x0000000000000000000000000000000000000000000000000000000000000001'', props_v = 27, props_networkV = None,
        props_frozen = False\<rparr>
     \<noteq> get_r \<lparr>props_r = ''0xAAAAAAAAAAAAAAAAAAAAAAAAAAAAAAAAAAAAAAAAAAAAAAAAAAAAAAAAAAAAAAAA'', props_s = ''0x0000000000000000000000000000000000000000000000000000000000000001'', props_v = 27, props_networkV = None,
        props_frozen = False\<rparr>"
    by (simp add: get_r_def)
qed code_simp+

section \<open>The invariants hold for every instance\<close>

lemma length_and_byte0 [simp]: "length (and_byte0 bs m) = length bs"
  by (cases bs) (simp_all add: and_byte0_def)

lemma from_s_hex:
  assumes "from_s sig a b = Inr s"
  shows "isHexString s (ByteLength 32)"
proof (cases "\<exists>s'. a = Present s'")
  case True
  with assms show ?thesis
    by (auto simp: from_s_def assertError_def assertArgument_def split: if_splits)
next
  case False
  then have "\<forall>s'. a \<noteq> Present s'" by simp
  from this assms obtain y yb where y: "b = Present y" "getBytes (Str y) ''value'' = Inr yb"
    "s = hexlify_bytes (and_byte0 yb 0x7f)"
    by (rule from_s_absent)
  with False assms have "isHexString y (ByteLength 32)"
    by (cases a) (auto simp: from_s_def assertError_def assertArgument_def split: if_splits)
  then obtain yb' where "getBytes (Str y) ''value'' = Inr yb'" "length yb' = 32"
    by (rule isHexString_getBytes)
  with y show ?thesis by simp
qed

lemma invariant_new_Signature:
  "invariant (new_Signature r s v) \<longleftrightarrow>
     isHexString r (ByteLength 32) \<and> isHexString s (ByteLength 32) \<and>
     (case getBytes (Str s) ''value'' of Inl _ \<Rightarrow> False | Inr bytes \<Rightarrow> byte0 bytes AND 0x80 = 0) \<and>
     (v = 27 \<or> v = 28)"
  by (simp add: invariant_def new_Signature_def get_r_def get_s_def get_v_def)

lemma invariant_fields:
  "props_r a = props_r b \<Longrightarrow> props_s a = props_s b \<Longrightarrow> props_v a = props_v b \<Longrightarrow>
     invariant a = invariant b"
  by (simp add: invariant_def get_r_def get_s_def get_v_def)

lemma getNormalizedV_range: "getNormalizedV x = Inr k \<Longrightarrow> k = 27 \<or> k = 28"
  by (auto simp: getNormalizedV_def bind_result_def split: sum.splits if_splits)

lemma from_string_invariant:
  assumes "from (SigString str) = Inr this"
  shows "invariant this"
proof -
  from assms obtain bytes where g: "getBytes (Str str) ''signature'' = Inr bytes"
    by (cases "getBytes (Str str) ''signature''") (simp_all add: from_def bind_result_def)
  consider "length bytes = 64" | "length bytes = 65"
    using assms g by (auto simp: from_def bind_result_def throwError_def split: if_splits)
  then show ?thesis
  proof cases
    case 1
    with assms g show ?thesis
      by (auto simp: from_def bind_result_def Let_def invariant_new_Signature byte0_and_byte0)
  next
    case 2
    with assms g show ?thesis
      by (auto simp: from_def bind_result_def Let_def invariant_new_Signature assertError_def
            assertArgument_def dest: getNormalizedV_range split: if_splits sum.splits)
  qed
qed

lemma from_record_invariant:
  assumes "from_record obj = Inr this"
  shows "invariant this"
  using assms
proof (rule from_record_Inr)
  fix r s sb nv v
  assume r: "isHexString r (ByteLength 32)"
    and s: "from_s (SigRecord obj) (obj_s obj) (obj_yParityAndS obj) = Inr s"
    and sb: "getBytes (Str s) ''value'' = Inr sb" "byte0 sb AND 0x80 = 0"
    and v: "from_v (SigRecord obj) (obj_v obj) (obj_yParityAndS obj) (obj_yParity obj) = Inr (nv, v)"
    and eq: "this = (new_Signature r s v)\<lparr>props_networkV := nv\<rparr>"
  from v have "v = 27 \<or> v = 28" using from_v_range by blast
  with r from_s_hex [OF s] sb eq show ?thesis
    by (simp add: invariant_def new_Signature_def get_r_def get_s_def get_v_def)
qed

lemma ZeroHash_invariant: "invariant (new_Signature ZeroHash ZeroHash 27)"
  by code_simp

lemma clone_invariant: "clone this = Inr this' \<Longrightarrow> invariant this' = invariant this"
  by (rule invariant_fields)
     (auto simp: clone_def Let_def setStore_def new_Signature_def get_r_def get_s_def get_v_def
       split: if_splits)

lemma set_r_invariant:
  assumes "set_r this value = Inr this'" and "invariant this"
  shows "invariant this'"
proof -
  from assms(1) obtain bs where g: "getBytes value ''value'' = Inr bs"
    by (cases "getBytes value ''value''")
       (auto simp: set_r_def bind_result_def assertArgument_def hexlify_def
         split: sum.splits if_splits)
  from assms(1) have "length bs = 32" "this' = this\<lparr>props_r := hexlify_bytes bs\<rparr>"
    unfolding set_r_stores [OF g] by (simp_all split: if_splits)
  with assms(2) show ?thesis
    by (simp add: invariant_def get_r_def get_s_def get_v_def)
qed

lemma set_s_invariant:
  assumes "set_s this value = Inr this'" and "invariant this"
  shows "invariant this'"
proof -
  from assms(1) obtain bs where g: "getBytes value ''value'' = Inr bs"
    by (cases "getBytes value ''value''")
       (auto simp: set_s_def bind_result_def assertArgument_def hexlify_def
         split: sum.splits if_splits)
  from assms(1) have "length bs = 32" "byte0 bs AND 0x80 = 0"
    "this' = this\<lparr>props_s := hexlify_bytes bs\<rparr>"
    unfolding set_s_stores [OF g] by (simp_all split: if_splits)
  with assms(2) show ?thesis
    by (simp add: invariant_def get_r_def get_s_def get_v_def)
qed

lemma set_v_invariant:
  assumes "set_v this n = Inr this'" and "invariant this"
  shows "invariant this'"
proof -
  from assms(1) obtain k where g: "getNumber n ''value'' = Inr k"
    by (cases "getNumber n ''value''") (auto simp: set_v_def bind_result_def)
  from assms(1) have "k = 27 \<or> k = 28" "this' = this\<lparr>props_v := k\<rparr>"
    unfolding set_v_stores [OF g] by (simp_all split: if_splits)
  with assms(2) show ?thesis
    by (simp add: invariant_def get_r_def get_s_def get_v_def)
qed

lemma produced_invariant: "produced this \<Longrightarrow> invariant this"
proof (induction rule: produced.induct)
  case (by_from sig this)
  show ?case
  proof (cases sig)
    case SigNull
    with by_from show ?thesis using ZeroHash_invariant by (auto simp: from_def)
  next
    case (SigString str)
    with by_from show ?thesis by (simp add: from_string_invariant)
  next
    case (SigInstance x)
    with by_from show ?thesis by (simp add: is_instance_def)
  next
    case (SigRecord obj)
    with by_from have "from_record obj = Inr this" by (simp add: from_def)
    then show ?thesis by (rule from_record_invariant)
  qed
next
  case (by_from_instance this this')
  then show ?case by (simp add: from_def clone_invariant)
next
  case (by_clone this this')
  then show ?case by (simp add: clone_invariant)
next
  case (by_freeze this)
  then show ?case
    by (simp add: invariant_def freeze_def get_r_def get_s_def get_v_def)
next
  case (by_set_r this "value" this')
  then show ?case by (simp add: set_r_invariant)
next
  case (by_set_s this "value" this')
  then show ?case by (simp add: set_s_invariant)
next
  case (by_set_v this n this')
  then show ?case by (simp add: set_v_invariant)
qed

section \<open>The 64-byte blob\<close>

text \<open>
  Claim C3. For a string that decodes to 64 bytes, \<^verbatim>\<open>from\<close> returns an instance whose
  \<open>r\<close> reads as the first 32 bytes, whose \<open>v\<close> reads as 28 when the top bit of byte 32
  is set and as 27 otherwise, and whose \<open>s\<close> reads as bytes 32 to 63 with that bit
  cleared; the blob of 32 bytes \<^verbatim>\<open>0x11\<close>, then \<^verbatim>\<open>0x80\<close>, then 31 zero bytes gives \<open>r\<close> of
  32 bytes \<^verbatim>\<open>0x11\<close>, \<open>s\<close> of 32 zero bytes and \<open>v = 28\<close>.
\<close>

theorem from_blob64:
  assumes "getBytes (Str str) ''signature'' = Inr bytes" and "length bytes = 64"
  shows "(\<exists>result. from (SigString str) = Inr result \<and>
           result = \<lparr>props_r = hexlify_bytes (take 32 bytes),
                      props_s = hexlify_bytes ((take 32 (drop 32 bytes))[0 := bytes ! 32 AND 0x7f]),
                      props_v = (if bytes ! 32 AND 0x80 \<noteq> 0 then 28 else 27),
                      props_networkV = None, props_frozen = False\<rparr> \<and>
           get_r result = hexlify_bytes (take 32 bytes) \<and>
           getBytes (Str (get_r result)) ''value'' = Inr (take 32 bytes) \<and>
           get_s result = hexlify_bytes ((take 32 (drop 32 bytes))[0 := bytes ! 32 AND 0x7f]) \<and>
           getBytes (Str (get_s result)) ''value'' =
             Inr ((take 32 (drop 32 bytes))[0 := bytes ! 32 AND 0x7f]) \<and>
           get_v result = (if bytes ! 32 AND 0x80 \<noteq> 0 then 28 else 27) \<and>
           (bit (bytes ! 32) 7 \<longleftrightarrow> get_v result = 28) \<and>
           get_networkV result = None \<and> \<not> isFrozen result)
         \<and> (\<exists>example. from (SigString ''0x11111111111111111111111111111111111111111111111111111111111111118000000000000000000000000000000000000000000000000000000000000000'')
             = Inr example \<and>
           get_r example = ''0x1111111111111111111111111111111111111111111111111111111111111111'' \<and>
           get_s example = ''0x0000000000000000000000000000000000000000000000000000000000000000'' \<and>
           get_v example = 28 \<and> get_networkV example = None)"
proof -
  let ?result = "\<lparr>props_r = hexlify_bytes (take 32 bytes),
                      props_s = hexlify_bytes ((take 32 (drop 32 bytes))[0 := bytes ! 32 AND 0x7f]),
                      props_v = (if bytes ! 32 AND 0x80 \<noteq> 0 then 28 else 27),
                      props_networkV = None, props_frozen = False\<rparr>"
  have ne: "drop 32 bytes \<noteq> []" using assms(2) by auto
  have f: "from (SigString str) = Inr ?result"
    using assms
    by (simp add: from_def bind_result_def Let_def byte0_drop and_byte0_update [OF ne]
          new_Signature_def)
  have top: "bit b 7 \<longleftrightarrow> b AND 0x80 \<noteq> 0" for b :: byte
  proof -
    have "(0x80 :: byte) = 2 ^ 7" by simp
    then have "b AND 0x80 = 0 \<longleftrightarrow> \<not> bit b 7"
      by (simp only: and_exp_eq_0_iff_not_bit)
    then show ?thesis by blast
  qed
  have general: "\<exists>result. from (SigString str) = Inr result \<and>
           result = ?result \<and>
           get_r result = hexlify_bytes (take 32 bytes) \<and>
           getBytes (Str (get_r result)) ''value'' = Inr (take 32 bytes) \<and>
           get_s result = hexlify_bytes ((take 32 (drop 32 bytes))[0 := bytes ! 32 AND 0x7f]) \<and>
           getBytes (Str (get_s result)) ''value'' =
             Inr ((take 32 (drop 32 bytes))[0 := bytes ! 32 AND 0x7f]) \<and>
           get_v result = (if bytes ! 32 AND 0x80 \<noteq> 0 then 28 else 27) \<and>
           (bit (bytes ! 32) 7 \<longleftrightarrow> get_v result = 28) \<and>
           get_networkV result = None \<and> \<not> isFrozen result"
    by (rule exI [of _ ?result])
       (simp add: f get_r_def get_s_def get_v_def get_networkV_def isFrozen_def top)
  have e: "from (SigString ''0x11111111111111111111111111111111111111111111111111111111111111118000000000000000000000000000000000000000000000000000000000000000'')
   = Inr \<lparr>props_r = ''0x1111111111111111111111111111111111111111111111111111111111111111'',
       props_s = ''0x0000000000000000000000000000000000000000000000000000000000000000'',
       props_v = 28, props_networkV = None, props_frozen = False\<rparr>"
    by code_simp
  have example: "\<exists>example. from (SigString ''0x11111111111111111111111111111111111111111111111111111111111111118000000000000000000000000000000000000000000000000000000000000000'')
             = Inr example \<and>
           get_r example = ''0x1111111111111111111111111111111111111111111111111111111111111111'' \<and>
           get_s example = ''0x0000000000000000000000000000000000000000000000000000000000000000'' \<and>
           get_v example = 28 \<and> get_networkV example = None"
    unfolding e by (simp add: get_r_def get_s_def get_v_def get_networkV_def)
  from general example show ?thesis by (rule conjI)
qed

theorem from_blob64_witness:
  "\<exists>result. from (SigString ''0x22222222222222222222222222222222222222222222222222222222222222227f000000000000000000000000000000000000000000000000000000000000ff'')
     = Inr result \<and>
   get_r result = ''0x2222222222222222222222222222222222222222222222222222222222222222'' \<and>
   get_s result = ''0x7f000000000000000000000000000000000000000000000000000000000000ff'' \<and>
   get_v result = 27 \<and> get_networkV result = None"
proof -
  define str where "str = ''0x22222222222222222222222222222222222222222222222222222222222222227f000000000000000000000000000000000000000000000000000000000000ff''"
  define bytes :: "byte list" where "bytes = replicate 32 0x22 @ [0x7f] @ replicate 30 0 @ [0xff]"
  have g: "getBytes (Str str) ''signature'' = Inr bytes"
    unfolding str_def bytes_def by code_simp
  have l: "length bytes = 64" unfolding bytes_def by simp
  have r: "hexlify_bytes (take 32 bytes) = ''0x2222222222222222222222222222222222222222222222222222222222222222''"
    unfolding bytes_def by code_simp
  have s: "hexlify_bytes ((take 32 (drop 32 bytes))[0 := bytes ! 32 AND 0x7f]) =
      ''0x7f000000000000000000000000000000000000000000000000000000000000ff''"
    unfolding bytes_def by code_simp
  have v: "(if bytes ! 32 AND 0x80 \<noteq> 0 then 28 else 27) = (27 :: int)"
    unfolding bytes_def by code_simp
  from from_blob64 [OF g l, THEN conjunct1] obtain result where
    "from (SigString str) = Inr result"
    "get_r result = hexlify_bytes (take 32 bytes)"
    "get_s result = hexlify_bytes ((take 32 (drop 32 bytes))[0 := bytes ! 32 AND 0x7f])"
    "get_v result = (if bytes ! 32 AND 0x80 \<noteq> 0 then 28 else 27)"
    "get_networkV result = None"
    by blast
  then have "from (SigString str) = Inr result \<and>
     get_r result = ''0x2222222222222222222222222222222222222222222222222222222222222222'' \<and>
     get_s result = ''0x7f000000000000000000000000000000000000000000000000000000000000ff'' \<and>
     get_v result = 27 \<and> get_networkV result = None"
    unfolding r s v by simp
  then show ?thesis unfolding str_def by (rule exI)
qed


section \<open>The priority rule for \<open>v\<close>\<close>

lemma hex32_bytes:
  assumes "isHexString st (ByteLength 32)" and "getBytes (Str st) name = Inr bs"
  shows "length bs = 32" and "byte0 bs = bs ! 0"
proof -
  from assms(1) obtain bs' where "getBytes (Str st) name = Inr bs'" "length bs' = 32"
    by (rule isHexString_getBytes)
  with assms(2) show "length bs = 32" by simp
  then have "bs \<noteq> []" by auto
  then show "byte0 bs = bs ! 0" by (rule byte0_nth)
qed




section \<open>The cross-check of redundant fields\<close>

lemma or_byte0_update: "bs \<noteq> [] \<Longrightarrow> or_byte0 bs m = bs[0 := bs ! 0 OR m]"
  by (cases bs) (simp_all add: or_byte0_def)

text \<open>
  Claim C1, as amended. When the fields of a structured record resolve \<open>r\<close>, \<open>s\<close> and
  \<open>v\<close>, the result has \<open>yParity\<close> 0 for \<open>v = 27\<close> and 1 for \<open>v = 28\<close>, and its
  \<open>yParityAndS\<close> is the lower-case hex text of the bytes of \<open>s\<close> with the top bit of the
  first byte set exactly for \<open>v = 28\<close>. \<^verbatim>\<open>from\<close> compares every \<open>yParity\<close> and
  \<open>yParityAndS\<close> the record also carries with these: a supplied \<open>yParity\<close> that differs
  fails with \<^verbatim>\<open>yParity mismatch\<close>; a supplied \<open>yParityAndS\<close> that is not that very text
  fails with a mismatch error, also when it denotes the same bytes in upper-case digits;
  and when all that is supplied is identical to the derived values, the result is
  returned with the resolved \<open>r\<close>, \<open>s\<close>, \<open>v\<close> and \<open>networkV\<close>.
\<close>

theorem redundancy_cross_check:
  assumes "obj_r obj = Present r" and "isHexString r (ByteLength 32)"
    and "from_s (SigRecord obj) (obj_s obj) (obj_yParityAndS obj) = Inr s"
    and "getBytes (Str s) ''value'' = Inr sb" and "sb ! 0 AND 0x80 = 0"
    and "from_v (SigRecord obj) (obj_v obj) (obj_yParityAndS obj) (obj_yParity obj) = Inr (nv, v)"
  shows "(let yp = (if v = 27 then 0 else 1);
              ysb = (if v = 27 then sb else sb[0 := sb ! 0 OR 0x80]);
              ys = hexlify_bytes ysb;
              result = \<lparr>props_r = r, props_s = s, props_v = v, props_networkV = nv,
                         props_frozen = False\<rparr> in
    (v = 27 \<or> v = 28) \<and>
    get_yParity result = yp \<and> get_yParityAndS result = Inr ys \<and>
    getBytes (Str ys) ''value'' = Inr ysb \<and> (bit (ysb ! 0) 7 \<longleftrightarrow> v = 28) \<and>
    (\<forall>p. obj_yParity obj = Present p \<and> p \<noteq> yp \<longrightarrow>
       from (SigRecord obj) =
         Inl (INVALID_ARGUMENT ''yParity mismatch'' ''signature'' (VSignatureLike (SigRecord obj)))) \<and>
    (\<forall>y. (obj_yParity obj = Absent \<or> obj_yParity obj = Present yp) \<and>
        obj_yParityAndS obj = Present y \<and> y \<noteq> ys \<longrightarrow>
       from (SigRecord obj) =
         Inl (INVALID_ARGUMENT ''yParityAndS mismatch'' ''signature''
                (VSignatureLike (SigRecord obj)))) \<and>
    (\<forall>y. obj_yParityAndS obj = Present y \<and> y \<noteq> ys \<longrightarrow>
       (\<exists>m. (m = ''yParity mismatch'' \<or> m = ''yParityAndS mismatch'') \<and>
          from (SigRecord obj) =
            Inl (INVALID_ARGUMENT m ''signature'' (VSignatureLike (SigRecord obj))))) \<and>
    ((obj_yParity obj = Absent \<or> obj_yParity obj = Present yp) \<and>
     (obj_yParityAndS obj = Absent \<or> obj_yParityAndS obj = Present ys) \<longrightarrow>
       from (SigRecord obj) = Inr result) \<and>
    (\<forall>inst. from (SigRecord obj) = Inr inst \<longrightarrow>
       inst = result \<and>
       (\<forall>p. obj_yParity obj = Present p \<longrightarrow> p = yp) \<and>
       (\<forall>y. obj_yParityAndS obj = Present y \<longrightarrow> y = ys)))"
proof -
  let ?yp = "if v = 27 then 0 else 1 :: int"
  let ?ysb = "if v = 27 then sb else sb[0 := sb ! 0 OR 0x80]"
  let ?ys = "hexlify_bytes ?ysb"
  let ?result = "\<lparr>props_r = r, props_s = s, props_v = v, props_networkV = nv,
                         props_frozen = False\<rparr>"
  have hs: "isHexString s (ByteLength 32)" using assms(3) by (rule from_s_hex)
  have len: "length sb = 32" and b0: "byte0 sb = sb ! 0"
    by (rule hex32_bytes [OF hs assms(4)])+
  then have ne: "sb \<noteq> []" by auto
  have c: "byte0 sb AND 0x80 = 0" using assms(5) b0 by simp
  have vr: "v = 27 \<or> v = 28" using assms(6) from_v_range by blast
  have res: "?result = (new_Signature r s v)\<lparr>props_networkV := nv\<rparr>"
    by (simp add: new_Signature_def)
  have y: "get_yParity ?result = ?yp" by (simp add: get_yParity_def get_v_def)
  have d: "get_yParityAndS ?result = Inr ?ys"
    using assms(4)
    by (simp add: get_yParityAndS_def get_s_def get_yParity_def get_v_def bind_result_def
          or_byte0_update [OF ne])
  have g: "getBytes (Str ?ys) ''value'' = Inr ?ysb" by simp
  have "(0x80 :: byte) = 2 ^ 7" by simp
  then have top: "b AND 0x80 = 0 \<longleftrightarrow> \<not> bit b 7" for b :: byte
    by (simp only: and_exp_eq_0_iff_not_bit)
  have set: "bit (sb ! 0 OR 0x80) 7"
    using top [of "sb ! 0 OR 0x80"] byte_top_split(2) [OF assms(5)] by simp
  have clear: "\<not> bit (sb ! 0) 7" using top [of "sb ! 0"] assms(5) by simp
  have t: "bit (?ysb ! 0) 7 \<longleftrightarrow> v = 28"
    using vr ne set clear by auto
  have f: "from (SigRecord obj) = from_record obj" by (simp add: from_def)
  have tail: "from (SigRecord obj) =
    (if obj_yParity obj \<noteq> Absent \<and> obj_yParity obj \<noteq> Present ?yp
     then Inl (INVALID_ARGUMENT ''yParity mismatch'' ''signature'' (VSignatureLike (SigRecord obj)))
     else if obj_yParityAndS obj \<noteq> Absent \<and> obj_yParityAndS obj \<noteq> Present ?ys
     then Inl (INVALID_ARGUMENT ''yParityAndS mismatch'' ''signature'' (VSignatureLike (SigRecord obj)))
     else Inr ?result)"
    unfolding f res from_record_tail [OF assms(1-4) c assms(6)] or_byte0_update [OF ne] ..
  show ?thesis
    unfolding Let_def
    apply (intro conjI)
            apply (rule vr)
           apply (rule y)
          apply (rule d)
         apply (rule g)
        apply (rule t)
       apply (simp add: tail)
      apply (auto simp add: tail)[1]
     apply (auto simp add: tail)[1]
    apply (auto simp add: tail)[1]
    apply (auto simp add: tail split: if_splits)
    done
qed


theorem redundancy_cross_check_witness:
  "from (SigRecord \<lparr>obj_r = Present ''0x1111111111111111111111111111111111111111111111111111111111111111'', obj_s = Present ''0x0000000000000000000000000000000000000000000000000000000000000001'', obj_v = Present (NumberV 27),
       obj_yParity = Present 1, obj_yParityAndS = Absent\<rparr>) =
     Inl (INVALID_ARGUMENT ''yParity mismatch'' ''signature''
       (VSignatureLike (SigRecord \<lparr>obj_r = Present ''0x1111111111111111111111111111111111111111111111111111111111111111'', obj_s = Present ''0x0000000000000000000000000000000000000000000000000000000000000001'',
          obj_v = Present (NumberV 27), obj_yParity = Present 1, obj_yParityAndS = Absent\<rparr>)))
   \<and> from (SigRecord \<lparr>obj_r = Present ''0x1111111111111111111111111111111111111111111111111111111111111111'', obj_s = Present ''0x0000000000000000000000000000000000000000000000000000000000000001'', obj_v = Present (NumberV 28),
       obj_yParity = Present 1, obj_yParityAndS = Present ''0x8000000000000000000000000000000000000000000000000000000000000001''\<rparr>) =
     Inr \<lparr>props_r = ''0x1111111111111111111111111111111111111111111111111111111111111111'', props_s = ''0x0000000000000000000000000000000000000000000000000000000000000001'', props_v = 28, props_networkV = None,
          props_frozen = False\<rparr>
   \<and> from (SigRecord \<lparr>obj_r = Present ''0x1111111111111111111111111111111111111111111111111111111111111111'', obj_s = Present ''0x0000000000000000000000000000000000000000000000000000000000000001'', obj_v = Present (NumberV 28),
       obj_yParity = Present 1, obj_yParityAndS = Present ''0x0000000000000000000000000000000000000000000000000000000000000001''\<rparr>) =
     Inl (INVALID_ARGUMENT ''yParityAndS mismatch'' ''signature''
       (VSignatureLike (SigRecord \<lparr>obj_r = Present ''0x1111111111111111111111111111111111111111111111111111111111111111'', obj_s = Present ''0x0000000000000000000000000000000000000000000000000000000000000001'',
          obj_v = Present (NumberV 28), obj_yParity = Present 1,
          obj_yParityAndS = Present ''0x0000000000000000000000000000000000000000000000000000000000000001''\<rparr>)))"
proof -
  define r where "r = ''0x1111111111111111111111111111111111111111111111111111111111111111''"
  define s where "s = ''0x0000000000000000000000000000000000000000000000000000000000000001''"
  define y where "y = ''0x8000000000000000000000000000000000000000000000000000000000000001''"
  define sb :: "byte list" where "sb = replicate 31 0 @ [1]"
  define A where "A = \<lparr>obj_r = Present r, obj_s = Present s, obj_v = Present (NumberV 27),
       obj_yParity = Present (1 :: int), obj_yParityAndS = Absent :: string property\<rparr>"
  define B where "B = \<lparr>obj_r = Present r, obj_s = Present s, obj_v = Present (NumberV 28),
       obj_yParity = Present (1 :: int), obj_yParityAndS = Present y\<rparr>"
  define C where "C = \<lparr>obj_r = Present r, obj_s = Present s, obj_v = Present (NumberV 28),
       obj_yParity = Present (1 :: int), obj_yParityAndS = Present s\<rparr>"
  have hr: "isHexString r (ByteLength 32)" unfolding r_def by code_simp
  have hs: "isHexString s (ByteLength 32)" unfolding s_def by code_simp
  have gs: "getBytes (Str s) ''value'' = Inr sb" unfolding s_def sb_def by code_simp
  have cs: "sb ! 0 AND 0x80 = 0" unfolding sb_def by code_simp
  have ys: "hexlify_bytes (sb[0 := sb ! 0 OR 0x80]) = y" unfolding sb_def y_def by code_simp
  have ne: "s \<noteq> y" unfolding s_def y_def by simp
  have fs: "from_s sig (Present s) ya = Inr s" for sig ya
    by (simp add: from_s_def assertError_def assertArgument_def hs)
  have fv: "from_v sig (Present (NumberV n)) ya yp =
      Inr (None, if n = 27 then 27 else 28)" if "n = 27 \<or> n = 28" for sig ya yp n
    using that
    by (auto simp add: from_v_def getBigInt_def assertArgument_def maxValue_def bind_result_def
          getNormalizedV_BigIntV BN_35_def)
  have sA: "from_s (SigRecord A) (obj_s A) (obj_yParityAndS A) = Inr s"
    and vA: "from_v (SigRecord A) (obj_v A) (obj_yParityAndS A) (obj_yParity A) = Inr (None, 27)"
    and rA: "obj_r A = Present r" and yA: "obj_yParity A = Present 1"
    by (simp_all add: A_def fs fv)
  have sB: "from_s (SigRecord B) (obj_s B) (obj_yParityAndS B) = Inr s"
    and vB: "from_v (SigRecord B) (obj_v B) (obj_yParityAndS B) (obj_yParity B) = Inr (None, 28)"
    and rB: "obj_r B = Present r" and yB: "obj_yParity B = Present 1"
    and yyB: "obj_yParityAndS B = Present y"
    by (simp_all add: B_def fs fv)
  have sC: "from_s (SigRecord C) (obj_s C) (obj_yParityAndS C) = Inr s"
    and vC: "from_v (SigRecord C) (obj_v C) (obj_yParityAndS C) (obj_yParity C) = Inr (None, 28)"
    and rC: "obj_r C = Present r" and yC: "obj_yParity C = Present 1"
    and yyC: "obj_yParityAndS C = Present s"
    by (simp_all add: C_def fs fv)
  note a = redundancy_cross_check [OF rA hr sA gs cs vA, unfolded Let_def]
  note b = redundancy_cross_check [OF rB hr sB gs cs vB, unfolded Let_def]
  note c = redundancy_cross_check [OF rC hr sC gs cs vC, unfolded Let_def]
  have "from (SigRecord A) =
     Inl (INVALID_ARGUMENT ''yParity mismatch'' ''signature'' (VSignatureLike (SigRecord A)))"
    by (rule a [THEN conjunct2, THEN conjunct2, THEN conjunct2, THEN conjunct2, THEN conjunct2,
          THEN conjunct1, rule_format, of 1]) (simp add: yA)
  moreover have "from (SigRecord B) =
     Inr \<lparr>props_r = r, props_s = s, props_v = 28, props_networkV = None, props_frozen = False\<rparr>"
    by (rule b [THEN conjunct2, THEN conjunct2, THEN conjunct2, THEN conjunct2, THEN conjunct2,
          THEN conjunct2, THEN conjunct2, THEN conjunct2, THEN conjunct1, rule_format])
       (simp add: yB yyB ys)
  moreover have "from (SigRecord C) =
     Inl (INVALID_ARGUMENT ''yParityAndS mismatch'' ''signature'' (VSignatureLike (SigRecord C)))"
    by (rule c [THEN conjunct2, THEN conjunct2, THEN conjunct2, THEN conjunct2, THEN conjunct2,
          THEN conjunct2, THEN conjunct1, rule_format, of s])
       (simp add: yC yyC ys ne)
  ultimately show ?thesis
    unfolding A_def B_def C_def r_def s_def y_def by (intro conjI)
qed

text \<open>
  The claim as it is written fails at a record whose \<open>yParityAndS\<close> is the very text of
  its \<open>s\<close>, with upper-case digits, and whose \<open>v\<close> is 27 and \<open>yParity\<close> is 0: all that is
  supplied agrees, the supplied \<open>yParityAndS\<close> and the derived one are the same 32 bytes,
  and \<^verbatim>\<open>from\<close> fails with \<^verbatim>\<open>yParityAndS mismatch\<close>. Without the \<open>yParityAndS\<close> the same
  record is accepted.
\<close>

theorem redundancy_cross_check_counterexample:
  "from (SigRecord \<lparr>obj_r = Present ''0x1111111111111111111111111111111111111111111111111111111111111111'', obj_s = Present ''0x00000000000000000000000000000000000000000000000000000000000000AB'', obj_v = Present (NumberV 27),
       obj_yParity = Present 0, obj_yParityAndS = Present ''0x00000000000000000000000000000000000000000000000000000000000000AB''\<rparr>) =
     Inl (INVALID_ARGUMENT ''yParityAndS mismatch'' ''signature''
       (VSignatureLike (SigRecord \<lparr>obj_r = Present ''0x1111111111111111111111111111111111111111111111111111111111111111'', obj_s = Present ''0x00000000000000000000000000000000000000000000000000000000000000AB'',
          obj_v = Present (NumberV 27), obj_yParity = Present 0,
          obj_yParityAndS = Present ''0x00000000000000000000000000000000000000000000000000000000000000AB''\<rparr>)))
   \<and> from (SigRecord \<lparr>obj_r = Present ''0x1111111111111111111111111111111111111111111111111111111111111111'', obj_s = Present ''0x00000000000000000000000000000000000000000000000000000000000000AB'', obj_v = Present (NumberV 27),
       obj_yParity = Present 0, obj_yParityAndS = Absent\<rparr>) =
     Inr \<lparr>props_r = ''0x1111111111111111111111111111111111111111111111111111111111111111'', props_s = ''0x00000000000000000000000000000000000000000000000000000000000000AB'', props_v = 27, props_networkV = None,
          props_frozen = False\<rparr>
   \<and> get_yParity \<lparr>props_r = ''0x1111111111111111111111111111111111111111111111111111111111111111'', props_s = ''0x00000000000000000000000000000000000000000000000000000000000000AB'', props_v = 27, props_networkV = None,
          props_frozen = False\<rparr> = 0
   \<and> get_yParityAndS \<lparr>props_r = ''0x1111111111111111111111111111111111111111111111111111111111111111'', props_s = ''0x00000000000000000000000000000000000000000000000000000000000000AB'', props_v = 27, props_networkV = None,
          props_frozen = False\<rparr> = Inr ''0x00000000000000000000000000000000000000000000000000000000000000ab''
   \<and> getBytes (Str ''0x00000000000000000000000000000000000000000000000000000000000000AB'') ''value'' = getBytes (Str ''0x00000000000000000000000000000000000000000000000000000000000000ab'') ''value''"
  by (intro conjI) code_simp+

end
